theory Spec2Isabelle
  imports Main
begin

section \<open>Python strings\<close>

text \<open>
  A Python \<open>str\<close> is a sequence of Unicode code points and \<open>len\<close> counts code points,
  so a string is modelled as a list of code points. \<open>ustr\<close> turns an ASCII literal into
  such a list.
\<close>

type_synonym ustring = "nat list"

definition ustr :: "string \<Rightarrow> ustring" where
  "ustr s = map of_char s"

text \<open>
  The characters \<open>str.strip()\<close>, \<open>str.lstrip()\<close> and \<open>str.isspace()\<close> treat as
  whitespace (CPython's \<open>Py_UNICODE_ISSPACE\<close>).
\<close>

definition is_space :: "nat \<Rightarrow> bool" where
  "is_space c \<longleftrightarrow>
     (9 \<le> c \<and> c \<le> 13) \<or> (28 \<le> c \<and> c \<le> 32) \<or> c = 133 \<or> c = 160 \<or> c = 5760 \<or>
     (8192 \<le> c \<and> c \<le> 8202) \<or> c = 8232 \<or> c = 8233 \<or> c = 8239 \<or> c = 8287 \<or> c = 12288"

definition lstrip :: "ustring \<Rightarrow> ustring" where
  "lstrip s = dropWhile is_space s"

definition rstrip :: "ustring \<Rightarrow> ustring" where
  "rstrip s = rev (dropWhile is_space (rev s))"

definition strip :: "ustring \<Rightarrow> ustring" where
  "strip s = rstrip (lstrip s)"

text \<open>
  Slice bounds as Python normalises them for a sequence of length \<open>n\<close>: a negative bound
  counts from the end, and every bound is clamped to \<open>0..n\<close>.
\<close>

definition slice_bound :: "nat \<Rightarrow> int \<Rightarrow> nat" where
  "slice_bound n i = (if i < 0 then nat (max 0 (int n + i)) else min (nat i) n)"

text \<open>\<open>s[:i]\<close> and \<open>s[i:]\<close>.\<close>

definition slice_to :: "'a list \<Rightarrow> int \<Rightarrow> 'a list" where
  "slice_to s i = take (slice_bound (length s) i) s"

definition slice_from :: "'a list \<Rightarrow> int \<Rightarrow> 'a list" where
  "slice_from s i = drop (slice_bound (length s) i) s"

text \<open>
  \<open>s.rfind(c, start, end)\<close> for a one-character needle: the highest index in
  \<open>s[start:end]\<close> holding \<open>c\<close>, or \<open>-1\<close>.
\<close>

definition rfind :: "ustring \<Rightarrow> nat \<Rightarrow> int \<Rightarrow> int \<Rightarrow> int" where
  "rfind s c start end =
     (let hits = filter (\<lambda>i. s ! i = c)
                   [slice_bound (length s) start ..< slice_bound (length s) end]
      in if hits = [] then - 1 else int (last hits))"

section \<open>Translation stage: splitting a text into chunks\<close>

text \<open>
  \<open>split_text_into_chunks\<close> of \<open>codes/speech.py\<close>. The \<open>while\<close> loop is \<open>split_loop\<close>,
  with the loop variables \<open>text\<close> and \<open>chunks\<close> as arguments; a run of the loop that never
  ends is the value \<open>None\<close>.
\<close>

partial_function (option) split_loop :: "ustring \<Rightarrow> int \<Rightarrow> ustring list \<Rightarrow> ustring list option" where
  "split_loop text max_length chunks =
     (if int (length text) > max_length then
        (let found = rfind text 32 0 max_length;
             split_index = (if found = - 1 then max_length else found)
         in split_loop (strip (slice_from text split_index)) max_length
              (chunks @ [slice_to text split_index]))
      else Some (chunks @ [text]))"

definition split_text_into_chunks :: "ustring \<Rightarrow> int \<Rightarrow> ustring list option" where
  "split_text_into_chunks text max_length = split_loop text max_length []"

text \<open>The two ways the repository joins chunks: \<open>"".join\<close> (its test) and \<open>" ".join\<close>
  (\<open>translate_text\<close>).\<close>

fun join :: "ustring \<Rightarrow> ustring list \<Rightarrow> ustring" where
  "join sep [] = []"
| "join sep [x] = x"
| "join sep (x # y # ys) = x @ sep @ join sep (y # ys)"

text \<open>
  What joining the chunks can give back: \<open>interleave chunks gaps\<close> is the text made of
  each chunk followed by its gap, and a gap that is \<open>whitespace_only\<close> is a run of
  whitespace (possibly empty).
\<close>

definition whitespace_only :: "ustring \<Rightarrow> bool" where
  "whitespace_only s \<longleftrightarrow> list_all is_space s"

definition interleave :: "ustring list \<Rightarrow> ustring list \<Rightarrow> ustring" where
  "interleave chunks gaps = concat (map (\<lambda>(c, g). c @ g) (zip chunks gaps))"

section \<open>Dates and legislative terms\<close>

text \<open>
  A pandas \<open>Timestamp\<close> at day resolution, as the fetchers use it (\<open>pd.date_range\<close> with
  \<open>freq='D'\<close> over calendar dates yields midnight timestamps): the number of days since
  1970-01-01. Timestamps are compared as these numbers. \<open>to_datetime y m d\<close> is
  \<open>pd.to_datetime("y-m-d")\<close>, by the proleptic Gregorian calendar (the year is counted
  from March, so that the leap day is the last day of the counted year).
\<close>

type_synonym timestamp = int

definition to_datetime :: "int \<Rightarrow> int \<Rightarrow> int \<Rightarrow> timestamp" where
  "to_datetime y m d =
     365 * (if m \<le> 2 then y - 1 else y) + (if m \<le> 2 then y - 1 else y) div 4
     - (if m \<le> 2 then y - 1 else y) div 100 + (if m \<le> 2 then y - 1 else y) div 400
     + (153 * ((m + 9) mod 12) + 2) div 5 + d - 1 - 719468"

text \<open>\<open>get_term\<close> of \<open>codes/speech.py\<close>: the \<open>for\<close> loop over the items of the
  dictionary \<open>date_ranges\<close>, in insertion order.\<close>

definition date_ranges :: "((timestamp \<times> timestamp) \<times> int) list" where
  "date_ranges =
     [((to_datetime 2019 7 2, to_datetime 2024 7 1), 9),
      ((to_datetime 2024 7 2, to_datetime 2029 7 1), 10)]"

fun get_term_loop :: "((timestamp \<times> timestamp) \<times> int) list \<Rightarrow> timestamp \<Rightarrow> int option" where
  "get_term_loop [] date = None"
| "get_term_loop (((start_date, end_date), code) # rest) date =
     (if start_date \<le> date \<and> date \<le> end_date then Some code else get_term_loop rest date)"

definition get_term :: "timestamp \<Rightarrow> int option" where
  "get_term date = get_term_loop date_ranges date"

text \<open>\<open>get_term\<close> of \<open>codes/voting.py\<close>, with its own copy of the table.\<close>

definition voting_date_ranges :: "((timestamp \<times> timestamp) \<times> int) list" where
  "voting_date_ranges =
     [((to_datetime 2019 7 2, to_datetime 2024 7 1), 9),
      ((to_datetime 2024 7 2, to_datetime 2029 7 1), 10)]"

definition voting_get_term :: "timestamp \<Rightarrow> int option" where
  "voting_get_term date = get_term_loop voting_date_ranges date"

section \<open>Exceptions\<close>

text \<open>
  The exception classes the code raises, catches or lets through. An exception is a value:
  a function that can raise returns \<open>exn + 'a\<close>, with \<open>Inl\<close> for the raised exception.
  The second field is \<open>str(e)\<close>.
\<close>

datatype exn_class =
  ValueError | AttributeError | IndexError | EmptyDataError | ParseError |
  FileNotFoundError | PermissionError | RequestException | ConnectionError | TimeoutError |
  LangDetectException

datatype exn = Exn exn_class ustring

fun exn_class_of :: "exn \<Rightarrow> exn_class" where
  "exn_class_of (Exn c msg) = c"

fun exn_message :: "exn \<Rightarrow> ustring" where
  "exn_message (Exn c msg) = msg"

text \<open>\<open>isinstance(e, ValueError)\<close>: pandas' \<open>EmptyDataError\<close> derives from \<open>ValueError\<close>.\<close>

definition is_ValueError :: "exn \<Rightarrow> bool" where
  "is_ValueError e \<longleftrightarrow> exn_class_of e = ValueError \<or> exn_class_of e = EmptyDataError"

text \<open>\<open>isinstance(e, OSError)\<close>: \<open>requests\<close>' \<open>RequestException\<close> derives from
  \<open>IOError\<close>, which is \<open>OSError\<close>.\<close>

definition is_OSError :: "exn \<Rightarrow> bool" where
  "is_OSError e \<longleftrightarrow> exn_class_of e \<in>
     {FileNotFoundError, PermissionError, RequestException, ConnectionError, TimeoutError}"

section \<open>Splitting strings\<close>

text \<open>\<open>s.split(sep)\<close> for a non-empty separator: the pieces between the occurrences of
  \<open>sep\<close>, found from the left without overlap. \<open>cur\<close> is the piece being read, reversed.\<close>

function split_from :: "ustring \<Rightarrow> ustring \<Rightarrow> ustring \<Rightarrow> ustring list" where
  "split_from sep cur [] = [rev cur]"
| "split_from sep cur (c # cs) =
     (if sep \<noteq> [] \<and> take (length sep) (c # cs) = sep
      then rev cur # split_from sep [] (drop (length sep) (c # cs))
      else split_from sep (c # cur) cs)"
  by pat_completeness auto
termination
  by (relation "measure (\<lambda>(sep, cur, s). length s)") auto

definition py_split :: "ustring \<Rightarrow> ustring \<Rightarrow> ustring list" where
  "py_split s sep = split_from sep [] s"

section \<open>Durations\<close>

text \<open>
  \<open>datetime.strptime(s, "%H:%M:%S")\<close>. CPython turns the format into the regular
  expression \<open>(?P<H>2[0-3]|[0-1]\d|\d):(?P<M>[0-5]\d|\d):(?P<S>6[0-1]|[0-5]\d|\d)\<close>, matches it
  at the start of \<open>s\<close>, raises \<open>ValueError\<close> when there is no match or when text remains
  after the match, reads each field with \<open>int\<close>, and builds
  \<open>datetime(1900, 1, 1, H, M, S)\<close>, which raises \<open>ValueError\<close> for a second above 59.

  In a \<open>str\<close> pattern the class \<open>\d\<close> matches every character with the Unicode property
  \<open>Decimal\<close> (category \<open>Nd\<close>), and \<open>int\<close> reads such a digit by its decimal value, so
  that \<open>"1"\<close> followed by U+0662 is the hour 12. The literals \<open>2\<close> and \<open>6\<close> and the
  ranges \<open>[0-1]\<close>, \<open>[0-3]\<close> and \<open>[0-5]\<close> are ASCII. Which characters are decimal digits
  is decided by the Unicode database of the interpreter, which is not part of the
  repository: the ASCII digits are, in every version, and no other ASCII character is; the
  others come in runs of ten beyond ASCII, from the digit zero to the digit nine of a
  script. The functions below take the database as the parameter \<open>zeros\<close>, the list of the
  digit zeros of these runs. \<open>unicode_14_zeros\<close> is the list of Unicode 14.0, the database of
  CPython 3.11.

  Each field below lists the ways its group can match, in the order the regular expression
  tries them, each with the text left over; \<open>hms_matches\<close> lists the matches of the whole
  expression in backtracking order, so that its head is the match \<open>re.match\<close> returns.
  The messages of the exceptions are abbreviated.
\<close>

definition unicode_14_zeros :: "nat list" where
  "unicode_14_zeros =
     [1632, 1776, 1984, 2406, 2534, 2662, 2790, 2918, 3046, 3174, 3302, 3430, 3558, 3664,
      3792, 3872, 4160, 4240, 6112, 6160, 6470, 6608, 6784, 6800, 6992, 7088, 7232, 7248, 42528,
      43216, 43264, 43472, 43504, 43600, 44016, 65296, 66720, 68912, 69734, 69872, 69942, 70096,
      70384, 70736, 70864, 71248, 71360, 71472, 71904, 72016, 72784, 73040, 73120, 92768, 92864,
      93008, 120782, 120792, 120802, 120812, 120822, 123200, 123632, 125264, 130032]"

definition is_digit :: "nat list \<Rightarrow> nat \<Rightarrow> bool" where
  "is_digit zeros c \<longleftrightarrow>
     (48 \<le> c \<and> c \<le> 57) \<or> (128 \<le> c \<and> list_ex (\<lambda>z. z \<le> c \<and> c < z + 10) zeros)"

definition digit_val :: "nat list \<Rightarrow> nat \<Rightarrow> nat" where
  "digit_val zeros c =
     (if c \<le> 57 then c - 48
      else case filter (\<lambda>z. z \<le> c \<and> c < z + 10) zeros of z # _ \<Rightarrow> c - z | [] \<Rightarrow> 0)"

definition field_H :: "nat list \<Rightarrow> ustring \<Rightarrow> (nat \<times> ustring) list" where
  "field_H zeros s =
     (case s of
        a # b # r \<Rightarrow>
          (if a = 50 \<and> 48 \<le> b \<and> b \<le> 51 then [(20 + digit_val zeros b, r)] else []) @
          (if 48 \<le> a \<and> a \<le> 49 \<and> is_digit zeros b then [(10 * digit_val zeros a + digit_val zeros b, r)] else [])
      | _ \<Rightarrow> []) @
     (case s of a # r \<Rightarrow> if is_digit zeros a then [(digit_val zeros a, r)] else [] | [] \<Rightarrow> [])"

definition field_M :: "nat list \<Rightarrow> ustring \<Rightarrow> (nat \<times> ustring) list" where
  "field_M zeros s =
     (case s of
        a # b # r \<Rightarrow>
          (if 48 \<le> a \<and> a \<le> 53 \<and> is_digit zeros b then [(10 * digit_val zeros a + digit_val zeros b, r)] else [])
      | _ \<Rightarrow> []) @
     (case s of a # r \<Rightarrow> if is_digit zeros a then [(digit_val zeros a, r)] else [] | [] \<Rightarrow> [])"

definition field_S :: "nat list \<Rightarrow> ustring \<Rightarrow> (nat \<times> ustring) list" where
  "field_S zeros s =
     (case s of
        a # b # r \<Rightarrow>
          (if a = 54 \<and> 48 \<le> b \<and> b \<le> 49 then [(60 + digit_val zeros b, r)] else []) @
          (if 48 \<le> a \<and> a \<le> 53 \<and> is_digit zeros b then [(10 * digit_val zeros a + digit_val zeros b, r)] else [])
      | _ \<Rightarrow> []) @
     (case s of a # r \<Rightarrow> if is_digit zeros a then [(digit_val zeros a, r)] else [] | [] \<Rightarrow> [])"

definition colon :: "ustring \<Rightarrow> ustring list" where
  "colon s = (case s of c # r \<Rightarrow> if c = 58 then [r] else [] | [] \<Rightarrow> [])"

definition hms_matches :: "nat list \<Rightarrow> ustring \<Rightarrow> (nat \<times> nat \<times> nat \<times> ustring) list" where
  "hms_matches zeros s =
     concat (map (\<lambda>(h, r1).
       concat (map (\<lambda>r2.
         concat (map (\<lambda>(m, r3).
           concat (map (\<lambda>r4.
             map (\<lambda>(sec, r5). (h, m, sec, r5)) (field_S zeros r4))
           (colon r3)))
         (field_M zeros r2)))
       (colon r1)))
     (field_H zeros s))"

definition strptime_HMS :: "nat list \<Rightarrow> ustring \<Rightarrow> exn + (nat \<times> nat \<times> nat)" where
  "strptime_HMS zeros s =
     (case hms_matches zeros s of
        [] \<Rightarrow> Inl (Exn ValueError (ustr ''time data does not match format''))
      | (h, m, sec, rest) # _ \<Rightarrow>
          if rest \<noteq> [] then Inl (Exn ValueError (ustr ''unconverted data remains''))
          else if sec > 59 then Inl (Exn ValueError (ustr ''second must be in 0..59''))
          else Inr (h, m, sec))"

text \<open>\<open>(end - start).seconds\<close>: the seconds field of the normalised \<open>timedelta\<close>, which
  lies in \<open>0..86399\<close>; a negative difference is carried into the (discarded) days field.\<close>

definition timedelta_seconds :: "nat \<times> nat \<times> nat \<Rightarrow> nat \<times> nat \<times> nat \<Rightarrow> int" where
  "timedelta_seconds end start =
     (case (end, start) of
        ((h2, m2, s2), (h1, m1, s1)) \<Rightarrow>
          ((3600 * int h2 + 60 * int m2 + int s2) - (3600 * int h1 + 60 * int m1 + int s1))
            mod 86400)"

text \<open>\<open>calculate_duration\<close> of \<open>codes/speech.py\<close>; \<open>Inr None\<close> is the returned \<open>None\<close>.
  The \<open>except ValueError\<close> clause lets every other exception through.\<close>

definition first_piece :: "ustring \<Rightarrow> ustring" where
  "first_piece s = (case py_split s [46] of p # _ \<Rightarrow> p | [] \<Rightarrow> [])"

definition calculate_duration :: "nat list \<Rightarrow> ustring \<Rightarrow> ustring \<Rightarrow> exn + int option" where
  "calculate_duration zeros time_start time_end =
     (case strptime_HMS zeros (first_piece time_start) of
        Inl e \<Rightarrow> if is_ValueError e then Inr None else Inl e
      | Inr start \<Rightarrow>
          (case strptime_HMS zeros (first_piece time_end) of
             Inl e \<Rightarrow> if is_ValueError e then Inr None else Inl e
           | Inr end \<Rightarrow> Inr (Some (timedelta_seconds end start))))"

text \<open>The timestamps the duration claim is about: \<open>HH:MM:SS\<close> with two digits in each
  field, followed by nothing or by a fractional-seconds suffix that starts with a dot.\<close>

definition two_digits :: "nat \<Rightarrow> ustring" where
  "two_digits n = [48 + n div 10, 48 + n mod 10]"








section \<open>XML documents\<close>

text \<open>
  An \<open>xml.etree.ElementTree\<close> element: tag, attribute dictionary, text before the first
  child (\<open>None\<close> when absent), text after the closing tag (\<open>tail\<close>), and children in
  document order. The parser keeps no comments or processing instructions, so every tag is
  a string.
\<close>

datatype element =
  Element (el_tag: ustring) (el_attrib: "(ustring \<times> ustring) list")
    (el_text: "ustring option") (el_tail: "ustring option") (el_children: "element list")

text \<open>\<open>d.get(key, default)\<close> on a dictionary.\<close>

definition get_default :: "(ustring \<times> ustring) list \<Rightarrow> ustring \<Rightarrow> ustring \<Rightarrow> ustring" where
  "get_default d key dflt = (case map_of d key of Some v \<Rightarrow> v | None \<Rightarrow> dflt)"

text \<open>\<open>e.findall(tag)\<close> and \<open>e.find(tag)\<close>: the children with that tag, and the first of
  them.\<close>

definition findall :: "element \<Rightarrow> ustring \<Rightarrow> element list" where
  "findall e t = filter (\<lambda>c. el_tag c = t) (el_children e)"

definition find_child :: "element \<Rightarrow> ustring \<Rightarrow> element option" where
  "find_child e t = (case findall e t of [] \<Rightarrow> None | c # _ \<Rightarrow> Some c)"

text \<open>\<open>e.findall(".//tag")\<close>: the elements below \<open>e\<close> at any depth (not \<open>e\<close> itself) with
  that tag, in document order.\<close>

fun descendants :: "element \<Rightarrow> element list" where
  "descendants (Element t a x l cs) = concat (map (\<lambda>c. c # descendants c) cs)"

definition findall_deep :: "element \<Rightarrow> ustring \<Rightarrow> element list" where
  "findall_deep e t = filter (\<lambda>c. el_tag c = t) (descendants e)"

text \<open>\<open>x or default\<close> for an optional string: \<open>None\<close> and the empty string are false.\<close>

definition or_default :: "ustring option \<Rightarrow> ustring \<Rightarrow> ustring" where
  "or_default x dflt = (case x of None \<Rightarrow> dflt | Some s \<Rightarrow> if s = [] then dflt else s)"

text \<open>Running a loop body that can raise over a list: the first exception ends the loop.\<close>

fun collect :: "('a \<Rightarrow> exn + 'b list) \<Rightarrow> 'a list \<Rightarrow> exn + 'b list" where
  "collect f [] = Inr []"
| "collect f (x # xs) =
     (case f x of
        Inl e \<Rightarrow> Inl e
      | Inr ys \<Rightarrow> (case collect f xs of Inl e \<Rightarrow> Inl e | Inr zs \<Rightarrow> Inr (ys @ zs)))"

section \<open>Vote extractor\<close>

record vote_record =
  vote_Date :: ustring
  vote_Description :: ustring
  vote_Vote :: ustring
  vote_PoliticalGroup :: ustring
  vote_MEP_ID :: ustring
  vote_Name :: ustring

text \<open>The three inner loops of \<open>parse_single_file\<close> (\<open>codes/voting.py\<close>), from the
  innermost; none of them can raise.\<close>

definition member_records ::
  "ustring \<Rightarrow> ustring \<Rightarrow> ustring \<Rightarrow> element \<Rightarrow> vote_record list" where
  "member_records session_date description vote_type grp =
     map (\<lambda>mbr.
       \<lparr>vote_Date = session_date, vote_Description = description, vote_Vote = vote_type,
        vote_PoliticalGroup = get_default (el_attrib grp) (ustr ''Identifier'') (ustr ''NaN''),
        vote_MEP_ID = get_default (el_attrib mbr) (ustr ''PersId'') (ustr ''NaN''),
        vote_Name = or_default (el_text mbr) (ustr ''NaN'')\<rparr>)
       (findall grp (ustr ''PoliticalGroup.Member.Name''))"

definition result_records :: "ustring \<Rightarrow> ustring \<Rightarrow> element \<Rightarrow> vote_record list" where
  "result_records session_date description res =
     concat (map (member_records session_date description
                    (last (py_split (el_tag res) (ustr ''.''))))
       (findall res (ustr ''Result.PoliticalGroup.List'')))"

text \<open>The body of the loop over the roll-call results: \<open>find(...)\<close> gives \<open>None\<close> when the
  description element is missing, and \<open>None.text\<close> raises \<open>AttributeError\<close>.\<close>

definition roll_call_records :: "ustring \<Rightarrow> element \<Rightarrow> exn + vote_record list" where
  "roll_call_records session_date roll_call =
     (case find_child roll_call (ustr ''RollCallVote.Description.Text'') of
        None \<Rightarrow> Inl (Exn AttributeError (ustr ''NoneType object has no attribute text''))
      | Some d \<Rightarrow>
          Inr (concat (map (result_records session_date
                              (or_default (el_text d) (ustr ''No Description'')))
                 (el_children roll_call))))"

text \<open>\<open>parse_single_file\<close>. The argument is what \<open>ET.parse(file_path)\<close> does for the file:
  it raises an \<open>OSError\<close> (file missing or unreadable) or a \<open>ParseError\<close> (not well-formed),
  or gives the tree, whose root is taken.\<close>

definition parse_single_file :: "exn + element \<Rightarrow> exn + vote_record list" where
  "parse_single_file file =
     (case file of
        Inl e \<Rightarrow> Inl e
      | Inr root_el \<Rightarrow>
          collect
            (roll_call_records
               (get_default (el_attrib root_el) (ustr ''Sitting.Date'') (ustr ''Unknown Date'')))
            (findall_deep root_el (ustr ''RollCallVote.Result'')))"

section \<open>Speech extractor\<close>

text \<open>
  The two patterns of \<open>gather_text\<close> (\<open>codes/speech.py\<close>), as \<open>pattern.match(s)\<close> decides
  them. Under \<open>re.IGNORECASE\<close> a letter of the pattern matches the characters whose lower
  case it is, and \<open>s\<close> also matches the long s (U+017F); the patterns hold no other letter
  with such an extra equivalent.
\<close>

definition ascii_lower :: "nat \<Rightarrow> nat" where
  "ascii_lower c = (if 65 \<le> c \<and> c \<le> 90 then c + 32 else c)"

definition re_ieq :: "nat \<Rightarrow> nat \<Rightarrow> bool" where
  "re_ieq p c \<longleftrightarrow> ascii_lower c = p \<or> (p = 115 \<and> c = 383)"

definition imatch_prefix :: "ustring \<Rightarrow> ustring \<Rightarrow> bool" where
  "imatch_prefix p s \<longleftrightarrow> length p \<le> length s \<and> list_all2 re_ieq p (take (length p) s)"

text \<open>\<open>^(on behalf of|en nombre del|au nom du|a nome|namens de) \<close>\<close>

definition skip_phrases_match :: "ustring \<Rightarrow> bool" where
  "skip_phrases_match s \<longleftrightarrow>
     list_ex (\<lambda>p. imatch_prefix (p @ [32]) s)
       [ustr ''on behalf of'', ustr ''en nombre del'', ustr ''au nom du'', ustr ''a nome'',
        ustr ''namens de'']"

text \<open>\<open>^\(.*\)$\<close>: an opening parenthesis, characters other than a line feed, a closing
  parenthesis, and then the end of the string or a last line feed.\<close>

definition note_match :: "ustring \<Rightarrow> bool" where
  "note_match s \<longleftrightarrow>
     (let t = (if s \<noteq> [] \<and> last s = 10 then butlast s else s)
      in 2 \<le> length t \<and> hd t = 40 \<and> last t = 41 \<and> 10 \<notin> set (butlast (tl t)))"

definition truthy :: "ustring option \<Rightarrow> bool" where
  "truthy x \<longleftrightarrow> (case x of None \<Rightarrow> False | Some s \<Rightarrow> s \<noteq> [])"

text \<open>The test that makes the loop of \<open>gather_text\<close> skip a child together with its tail.\<close>

definition skipped :: "element \<Rightarrow> bool" where
  "skipped child \<longleftrightarrow>
     el_tag child = ustr ''EMPHAS'' \<and> truthy (el_text child) \<and>
     (skip_phrases_match (strip (the (el_text child))) \<or> note_match (strip (the (el_text child))))"

definition stripped_part :: "ustring option \<Rightarrow> ustring list" where
  "stripped_part x = (if truthy x then [strip (the x)] else [])"

fun gather_text :: "element \<Rightarrow> ustring" where
  "gather_text (Element t a x l cs) =
     join [32]
       (filter (\<lambda>p. p \<noteq> [])
          (stripped_part x @
           concat (map (\<lambda>child.
             if skipped child then []
             else gather_text child # stripped_part (el_tail child)) cs)))"

text \<open>\<open>sep in s\<close> and \<open>s.split(sep, 1)[1]\<close>: where \<open>sep\<close> first occurs in \<open>s\<close>, and the text
  after that occurrence.\<close>

fun find_sub :: "ustring \<Rightarrow> ustring \<Rightarrow> nat option" where
  "find_sub sep [] = (if sep = [] then Some 0 else None)"
| "find_sub sep (c # cs) =
     (if take (length sep) (c # cs) = sep then Some 0 else map_option Suc (find_sub sep cs))"

definition after_first :: "ustring \<Rightarrow> ustring \<Rightarrow> ustring option" where
  "after_first sep s = map_option (\<lambda>i. drop (i + length sep) s) (find_sub sep s)"

text \<open>The separator of \<open>speech_parse\<close> (full stop, space, en dash U+2013, space), and its
  \<open>lstrip\<close> of en dashes and spaces.\<close>

definition narration_sep :: ustring where
  "narration_sep = [46, 32, 8211, 32]"

definition lstrip_dash :: "ustring \<Rightarrow> ustring" where
  "lstrip_dash s = dropWhile (\<lambda>c. c = 8211 \<or> c = 32) s"

record speech_record =
  sp_Date :: ustring
  sp_Time_Start :: ustring
  sp_Time_End :: ustring
  sp_Duration :: "int option"
  sp_Topic :: "ustring option"
  sp_Text :: ustring
  sp_MEPID :: ustring
  sp_Speaker_Name :: ustring
  sp_Party :: ustring
  sp_Speaker_Type :: ustring

definition speech_text :: "element \<Rightarrow> ustring" where
  "speech_text speech =
     (let joined = join [32] (filter (\<lambda>p. p \<noteq> []) (map gather_text (findall speech (ustr ''PARA''))));
          cut = (case after_first narration_sep joined of Some rest \<Rightarrow> strip rest | None \<Rightarrow> joined)
      in strip (lstrip_dash cut))"

text \<open>The speaker's name: \<open>last_name, first_name = lib.split(" | ")\<close> raises \<open>ValueError\<close>
  unless the split has exactly two pieces.\<close>

definition speaker_name_of :: "ustring \<Rightarrow> exn + ustring" where
  "speaker_name_of lib =
     (if lib \<noteq> ustr ''NaN'' \<and> find_sub (ustr '' | '') lib \<noteq> None then
        (case py_split lib (ustr '' | '') of
           [last_name, first_name] \<Rightarrow> Inr (last_name @ [32] @ first_name)
         | _ \<Rightarrow> Inl (Exn ValueError (ustr ''too many values to unpack'')))
      else Inr lib)"

definition speech_parse ::
  "nat list \<Rightarrow> element \<Rightarrow> ustring \<Rightarrow> ustring \<Rightarrow> ustring \<Rightarrow> ustring option \<Rightarrow> exn + speech_record" where
  "speech_parse zeros speech date time_start time_end topic =
     (case (case find_child speech (ustr ''ORATEUR'') of
              None \<Rightarrow> Inr (ustr ''NaN'', ustr ''NaN'', ustr ''NaN'', ustr ''NaN'')
            | Some orateur \<Rightarrow>
                (case speaker_name_of (get_default (el_attrib orateur) (ustr ''LIB'') (ustr ''NaN'')) of
                   Inl e \<Rightarrow> Inl e
                 | Inr speaker_name \<Rightarrow>
                     Inr (get_default (el_attrib orateur) (ustr ''MEPID'') (ustr ''NaN''),
                          get_default (el_attrib orateur) (ustr ''PP'') (ustr ''NaN''),
                          get_default (el_attrib orateur) (ustr ''SPEAKER_TYPE'') (ustr ''NaN''),
                          speaker_name))) of
        Inl e \<Rightarrow> Inl e
      | Inr (mepid, party, speaker_type, speaker_name) \<Rightarrow>
          (case calculate_duration zeros time_start time_end of
             Inl e \<Rightarrow> Inl e
           | Inr duration \<Rightarrow>
               Inr \<lparr>sp_Date = date, sp_Time_Start = time_start, sp_Time_End = time_end,
                    sp_Duration = duration, sp_Topic = topic, sp_Text = speech_text speech,
                    sp_MEPID = mepid, sp_Speaker_Name = speaker_name, sp_Party = party,
                    sp_Speaker_Type = speaker_type\<rparr>))"

section \<open>Batches of files\<close>

text \<open>What a batch prints, with the file name and the exception where the message has them.\<close>

datatype message =
  Error_processing_file ustring exn
| XML_parsing_error_in_file ustring exn
| File_error_with ustring exn
| Combined_CSV_saved
| No_data_parsed
| Voting_data_saved
| No_voting_data_parsed

text \<open>What a batch leaves behind: the rows gathered, the messages printed, and the rows of
  the combined CSV file when it was written.\<close>

record 'r batch =
  b_rows :: "'r list"
  b_printed :: "message list"
  b_csv :: "'r list option"

text \<open>An input directory: the names \<open>os.listdir\<close> gives, each with what \<open>ET.parse\<close> does
  for that file.\<close>

type_synonym directory = "(ustring \<times> (exn + element)) list"

definition endswith :: "ustring \<Rightarrow> ustring \<Rightarrow> bool" where
  "endswith s suffix \<longleftrightarrow> length suffix \<le> length s \<and> drop (length s - length suffix) s = suffix"

definition xml_files :: "directory \<Rightarrow> directory" where
  "xml_files dir = filter (\<lambda>(f, content). endswith f (ustr ''.xml'')) dir"

subsection \<open>\<open>parse_speeches\<close>\<close>

text \<open>
  The running timing context of a chapter: \<open>current_date\<close>, \<open>current_time_start\<close> and
  \<open>current_time_end\<close>. The loop over the children of a chapter appends to \<open>combined_data\<close>
  as it goes, so it returns the records appended so far together with the exception that
  stopped it, if one did.
\<close>

type_synonym timing = "ustring option \<times> ustring option \<times> ustring option"

fun chapter_elems ::
  "nat list \<Rightarrow> ustring option \<Rightarrow> timing \<Rightarrow> element list \<Rightarrow> speech_record list \<times> exn option" where
  "chapter_elems zeros topic ctx [] = ([], None)"
| "chapter_elems zeros topic (current_date, current_time_start, current_time_end) (elem # rest) =
     (if el_tag elem = ustr ''NUMERO'' \<and> truthy (map_of (el_attrib elem) (ustr ''VOD-START'')) \<and>
         truthy (map_of (el_attrib elem) (ustr ''VOD-END'')) then
        (case py_split (the (map_of (el_attrib elem) (ustr ''VOD-START''))) (ustr ''T'') of
           [d, t] \<Rightarrow>
             (case py_split (the (map_of (el_attrib elem) (ustr ''VOD-END''))) (ustr ''T'') of
                p # t' # others \<Rightarrow> chapter_elems zeros topic (Some d, Some t, Some t') rest
              | _ \<Rightarrow> ([], Some (Exn IndexError (ustr ''list index out of range''))))
         | _ \<Rightarrow> ([], Some (Exn ValueError (ustr ''wrong number of values to unpack''))))
      else if el_tag elem = ustr ''INTERVENTION'' \<and> truthy current_date \<and>
              truthy current_time_start \<and> truthy current_time_end then
        (case speech_parse zeros elem (the current_date) (the current_time_start)
                (the current_time_end) topic of
           Inl e \<Rightarrow> ([], Some e)
         | Inr r \<Rightarrow>
             (case chapter_elems zeros topic (current_date, current_time_start, current_time_end) rest of
                (rs, stop) \<Rightarrow> (r # rs, stop)))
      else chapter_elems zeros topic (current_date, current_time_start, current_time_end) rest)"

text \<open>\<open>chapter.find("TL-CHAP[@VL='EN']")\<close> and the topic taken from it.\<close>

definition chapter_topic :: "element \<Rightarrow> ustring option" where
  "chapter_topic chapter =
     (case filter (\<lambda>c. el_tag c = ustr ''TL-CHAP'' \<and> map_of (el_attrib c) (ustr ''VL'') = Some (ustr ''EN''))
             (el_children chapter) of
        [] \<Rightarrow> Some (ustr ''Unknown Topic'')
      | c # _ \<Rightarrow> el_text c)"

fun chapters_loop :: "nat list \<Rightarrow> element list \<Rightarrow> speech_record list \<times> exn option" where
  "chapters_loop zeros [] = ([], None)"
| "chapters_loop zeros (chapter # rest) =
     (case chapter_elems zeros (chapter_topic chapter) (None, None, None) (el_children chapter) of
        (rs, Some e) \<Rightarrow> (rs, Some e)
      | (rs, None) \<Rightarrow> (case chapters_loop zeros rest of (rs', stop) \<Rightarrow> (rs @ rs', stop)))"

text \<open>The body of the \<open>try\<close> for one file.\<close>

definition speech_file :: "nat list \<Rightarrow> exn + element \<Rightarrow> speech_record list \<times> exn option" where
  "speech_file zeros content =
     (case content of
        Inl e \<Rightarrow> ([], Some e)
      | Inr root_el \<Rightarrow> chapters_loop zeros (findall_deep root_el (ustr ''CHAPTER'')))"

text \<open>\<open>except (FileNotFoundError, ET.ParseError, AttributeError)\<close>\<close>

definition speech_caught :: "exn \<Rightarrow> bool" where
  "speech_caught e \<longleftrightarrow> exn_class_of e \<in> {FileNotFoundError, ParseError, AttributeError}"

text \<open>The loop over the files: a caught exception is printed with the file name and the loop
  goes on, keeping what the file had appended; any other exception leaves the function.\<close>

fun speech_files :: "nat list \<Rightarrow> directory \<Rightarrow> exn + (speech_record list \<times> message list)" where
  "speech_files zeros [] = Inr ([], [])"
| "speech_files zeros ((file, content) # rest) =
     (case speech_file zeros content of
        (rs, None) \<Rightarrow>
          (case speech_files zeros rest of
             Inl e \<Rightarrow> Inl e
           | Inr (rs', msgs) \<Rightarrow> Inr (rs @ rs', msgs))
      | (rs, Some e) \<Rightarrow>
          if speech_caught e then
            (case speech_files zeros rest of
               Inl e' \<Rightarrow> Inl e'
             | Inr (rs', msgs) \<Rightarrow> Inr (rs @ rs', Error_processing_file file e # msgs))
          else Inl e)"

text \<open>\<open>parse_speeches\<close> of \<open>codes/speech.py\<close>. The output directory and file are taken to be
  writable.\<close>

definition parse_speeches :: "nat list \<Rightarrow> directory \<Rightarrow> exn + speech_record batch" where
  "parse_speeches zeros input_dir =
     (case speech_files zeros (xml_files input_dir) of
        Inl e \<Rightarrow> Inl e
      | Inr (combined_data, msgs) \<Rightarrow>
          if combined_data \<noteq> [] then
            Inr \<lparr>b_rows = combined_data, b_printed = msgs @ [Combined_CSV_saved],
                 b_csv = Some combined_data\<rparr>
          else Inr \<lparr>b_rows = combined_data, b_printed = msgs @ [No_data_parsed], b_csv = None\<rparr>)"

subsection \<open>\<open>parse_votings\<close>\<close>

text \<open>The loop over the files, with \<open>except ET.ParseError\<close> and \<open>except OSError\<close>; the rows of
  a file are added only when \<open>parse_single_file\<close> returns.\<close>

fun voting_files :: "directory \<Rightarrow> exn + (vote_record list \<times> message list)" where
  "voting_files [] = Inr ([], [])"
| "voting_files ((file, content) # rest) =
     (case parse_single_file content of
        Inr rs \<Rightarrow>
          (case voting_files rest of
             Inl e \<Rightarrow> Inl e
           | Inr (rs', msgs) \<Rightarrow> Inr (rs @ rs', msgs))
      | Inl e \<Rightarrow>
          if exn_class_of e = ParseError then
            (case voting_files rest of
               Inl e' \<Rightarrow> Inl e'
             | Inr (rs', msgs) \<Rightarrow> Inr (rs', XML_parsing_error_in_file file e # msgs))
          else if is_OSError e then
            (case voting_files rest of
               Inl e' \<Rightarrow> Inl e'
             | Inr (rs', msgs) \<Rightarrow> Inr (rs', File_error_with file e # msgs))
          else Inl e)"

definition parse_votings :: "directory \<Rightarrow> exn + vote_record batch" where
  "parse_votings input_dir =
     (case voting_files (xml_files input_dir) of
        Inl e \<Rightarrow> Inl e
      | Inr (combined_data, msgs) \<Rightarrow>
          if combined_data \<noteq> [] then
            Inr \<lparr>b_rows = combined_data, b_printed = msgs @ [Voting_data_saved],
                 b_csv = Some combined_data\<rparr>
          else Inr \<lparr>b_rows = combined_data, b_printed = msgs @ [No_voting_data_parsed], b_csv = None\<rparr>)"

section \<open>Example documents\<close>

text \<open>The minimal vote document, with a sitting date and a group identifier.\<close>

definition minimal_vote_document :: element where
  "minimal_vote_document =
     Element (ustr ''PV.RollCallVoteResults'') [(ustr ''Sitting.Date'', ustr ''2024-01-15'')]
       None None
       [Element (ustr ''RollCallVote.Result'') [] None None
          [Element (ustr ''RollCallVote.Description.Text'') [] (Some (ustr ''Test Motion''))
             None [],
           Element (ustr ''Result.For'') [] None None
             [Element (ustr ''Result.PoliticalGroup.List'') [(ustr ''Identifier'', ustr ''EPP'')]
                None None
                [Element (ustr ''PoliticalGroup.Member.Name'') [(ustr ''PersId'', ustr ''123'')]
                   (Some (ustr ''Jane Doe'')) None []]]]]"

text \<open>The same document without the description element of the roll-call result.\<close>

definition vote_document_without_description :: element where
  "vote_document_without_description =
     Element (ustr ''PV.RollCallVoteResults'') [(ustr ''Sitting.Date'', ustr ''2024-01-15'')]
       None None
       [Element (ustr ''RollCallVote.Result'') [] None None
          [Element (ustr ''Result.For'') [] None None
             [Element (ustr ''Result.PoliticalGroup.List'') [(ustr ''Identifier'', ustr ''EPP'')]
                None None
                [Element (ustr ''PoliticalGroup.Member.Name'') [(ustr ''PersId'', ustr ''123'')]
                   (Some (ustr ''Jane Doe'')) None []]]]]"

text \<open>The minimal speech document.\<close>

definition minimal_speech_document :: element where
  "minimal_speech_document =
     Element (ustr ''DEBATS'') [] None None
       [Element (ustr ''CHAPTER'') [] None None
          [Element (ustr ''NUMERO'')
             [(ustr ''VOD-START'', ustr ''2024-01-15T12:00:00''),
              (ustr ''VOD-END'', ustr ''2024-01-15T12:05:00'')] None None [],
           Element (ustr ''INTERVENTION'') [] None None
             [Element (ustr ''ORATEUR'') [(ustr ''LIB'', ustr ''Doe | Jane'')] None None [],
              Element (ustr ''PARA'') [] (Some (ustr ''Hello world.'')) None []]]]"

text \<open>The records of the two minimal documents.\<close>

definition minimal_vote_record :: vote_record where
  "minimal_vote_record =
     \<lparr>vote_Date = ustr ''2024-01-15'', vote_Description = ustr ''Test Motion'',
      vote_Vote = ustr ''For'', vote_PoliticalGroup = ustr ''EPP'', vote_MEP_ID = ustr ''123'',
      vote_Name = ustr ''Jane Doe''\<rparr>"

definition minimal_speech_record :: speech_record where
  "minimal_speech_record =
     \<lparr>sp_Date = ustr ''2024-01-15'', sp_Time_Start = ustr ''12:00:00'',
      sp_Time_End = ustr ''12:05:00'', sp_Duration = Some 300,
      sp_Topic = Some (ustr ''Unknown Topic''), sp_Text = ustr ''Hello world.'',
      sp_MEPID = ustr ''NaN'', sp_Speaker_Name = ustr ''Doe Jane'', sp_Party = ustr ''NaN'',
      sp_Speaker_Type = ustr ''NaN''\<rparr>"

section \<open>Resumable fetcher\<close>

subsection \<open>Date strings and URLs\<close>

text \<open>
  \<open>date.strftime('%Y-%m-%d')\<close> for a timestamp at day resolution: the civil date of the
  day number by the proleptic Gregorian calendar, the inverse of \<open>to_datetime\<close>, with the
  year in four digits and month and day in two.
\<close>

definition day_of_era :: "timestamp \<Rightarrow> int" where
  "day_of_era d = (d + 719468) mod 146097"

definition year_of_era :: "timestamp \<Rightarrow> int" where
  "year_of_era d =
     (day_of_era d - day_of_era d div 1460 + day_of_era d div 36524 - day_of_era d div 146096)
       div 365"

definition day_of_year :: "timestamp \<Rightarrow> int" where
  "day_of_year d =
     day_of_era d - (365 * year_of_era d + year_of_era d div 4 - year_of_era d div 100)"

definition month_index :: "timestamp \<Rightarrow> int" where
  "month_index d = (5 * day_of_year d + 2) div 153"

definition day_of :: "timestamp \<Rightarrow> int" where
  "day_of d = day_of_year d - (153 * month_index d + 2) div 5 + 1"

definition month_of :: "timestamp \<Rightarrow> int" where
  "month_of d = (if month_index d < 10 then month_index d + 3 else month_index d - 9)"

definition year_of :: "timestamp \<Rightarrow> int" where
  "year_of d =
     year_of_era d + ((d + 719468) div 146097) * 400 + (if month_of d \<le> 2 then 1 else 0)"

definition four_digits :: "nat \<Rightarrow> ustring" where
  "four_digits n = [48 + n div 1000 mod 10, 48 + n div 100 mod 10, 48 + n div 10 mod 10, 48 + n mod 10]"

definition date_str :: "timestamp \<Rightarrow> ustring" where
  "date_str d =
     four_digits (nat (year_of d)) @ [45] @ two_digits (nat (month_of d)) @ [45] @
     two_digits (nat (day_of d))"

text \<open>\<open>str(n)\<close> for an integer, as an f-string formats the term and the status code.\<close>

function str_nat :: "nat \<Rightarrow> ustring" where
  "str_nat n = (if n < 10 then [48 + n] else str_nat (n div 10) @ [48 + n mod 10])"
  by pat_completeness auto
termination
  by (relation "measure id") auto

definition str_int :: "int \<Rightarrow> ustring" where
  "str_int i = (if i < 0 then 45 # str_nat (nat (- i)) else str_nat (nat i))"

text \<open>\<open>build_url\<close> of \<open>codes/speech.py\<close> and \<open>build_url_vote\<close> of \<open>codes/voting.py\<close>.\<close>

definition build_url :: "int \<Rightarrow> timestamp \<Rightarrow> ustring" where
  "build_url term date =
     ustr ''https://www.europarl.europa.eu/doceo/document/CRE-'' @ str_int term @ [45] @
     date_str date @ ustr ''_EN.xml''"

definition build_url_vote :: "int \<Rightarrow> timestamp \<Rightarrow> ustring" where
  "build_url_vote term date =
     ustr ''https://www.europarl.europa.eu/doceo/document/PV-'' @ str_int term @ [45] @
     date_str date @ ustr ''-RCV_EN.xml''"

subsection \<open>The log and the world around a run\<close>

text \<open>
  The log file as \<open>csv.writer\<close> writes it: its rows, each a list of cells; the empty list
  is the file of size 0. What \<open>pd.read_csv\<close> makes of a file is a table: the column names
  and the rows, a row giving the cells that hold a string by the name of their column (a
  cell that pandas reads as a number or as a missing value is equal to no string, and is
  left out). \<open>pd.read_csv\<close> is not part of the repository: the functions below take it as
  the parameter \<open>read_csv\<close>, which returns the table or raises.
\<close>

type_synonym log_file = "ustring list list"

record dataframe =
  df_columns :: "ustring list"
  df_rows :: "(ustring \<times> ustring) list list"

type_synonym csv_reader = "log_file \<Rightarrow> exn + dataframe"

text \<open>\<open>pd.DataFrame(columns=['Date', 'Status', 'Details'])\<close> and the header row.\<close>

definition log_header :: "ustring list" where
  "log_header = [ustr ''Date'', ustr ''Status'', ustr ''Details'']"

definition empty_log :: dataframe where
  "empty_log = \<lparr>df_columns = log_header, df_rows = []\<rparr>"

text \<open>
  \<open>date_str in set(log_df.loc[log_df['Status'] == status, 'Date'])\<close>: some row has the
  status in its \<open>Status\<close> cell and the date string in its \<open>Date\<close> cell.
\<close>

definition has_row :: "dataframe \<Rightarrow> ustring \<Rightarrow> ustring \<Rightarrow> bool" where
  "has_row log_df status date_s \<longleftrightarrow>
     list_ex (\<lambda>row. map_of row (ustr ''Status'') = Some status \<and>
                     map_of row (ustr ''Date'') = Some date_s) (df_rows log_df)"

text \<open>The test that makes the loop over the dates skip a date.\<close>

definition terminal :: "dataframe \<Rightarrow> ustring \<Rightarrow> bool" where
  "terminal log_df date_s \<longleftrightarrow>
     has_row log_df (ustr ''Success'') date_s \<or> has_row log_df (ustr ''Not Found'') date_s"

text \<open>
  What a run reads and changes: the log file (\<open>None\<close> when it does not exist), the
  documents saved (file name and content), the calls of \<open>requests.get\<close> made so far, each
  with the date it was made for, and the lines printed.
\<close>

record world =
  w_log :: "log_file option"
  w_files :: "(ustring \<times> ustring) list"
  w_requests :: "(timestamp \<times> ustring) list"
  w_printed :: "ustring list"

text \<open>
  The network and the disk are parameters. \<open>net n url\<close> is what the call number \<open>n\<close> of
  \<open>requests.get\<close> does for \<open>url\<close>: it raises, or returns the status code and the text of
  the response. \<open>disk name\<close> is the exception that writing the document \<open>name\<close> raises, if
  it raises. The exceptions of \<open>requests\<close> all derive from \<open>RequestException\<close> and are
  modelled by that class. Writing to the log is taken to succeed.
\<close>

type_synonym network = "nat \<Rightarrow> ustring \<Rightarrow> exn + (int \<times> ustring)"

type_synonym disk = "ustring \<Rightarrow> exn option"

text \<open>\<open>log_writer.writerow(row)\<close> on the file opened for appending.\<close>

definition writerow :: "ustring list \<Rightarrow> world \<Rightarrow> world" where
  "writerow row w = w\<lparr>w_log := Some ((case w_log w of None \<Rightarrow> [] | Some rows \<Rightarrow> rows) @ [row])\<rparr>"

subsection \<open>\<open>codes/speech.py\<close>\<close>

text \<open>\<open>initialize_log\<close>: the table the prior log is taken to be, after the line it may
  print.\<close>

definition initialize_log :: "csv_reader \<Rightarrow> world \<Rightarrow> exn + (dataframe \<times> world)" where
  "initialize_log read_csv w =
     (case w_log w of
        None \<Rightarrow> Inr (empty_log, w)
      | Some file \<Rightarrow>
          (case read_csv file of
             Inl e \<Rightarrow> Inl e
           | Inr log_df \<Rightarrow>
               if ustr ''Status'' \<notin> set (df_columns log_df) \<or>
                  ustr ''Date'' \<notin> set (df_columns log_df)
               then Inr (empty_log,
                      w\<lparr>w_printed := w_printed w @
                         [ustr ''Log file format is invalid. Reinitializing log.'']\<rparr>)
               else Inr (log_df, w)))"

text \<open>
  The body of the \<open>try\<close> of \<open>handle_download\<close>, after the term has been found: it returns
  the world it leaves and the exception it raises, if it raises.
\<close>

definition fetch :: "network \<Rightarrow> disk \<Rightarrow> ustring \<Rightarrow> ustring \<Rightarrow> timestamp \<Rightarrow> ustring \<Rightarrow> world \<Rightarrow>
    world \<times> exn option" where
  "fetch net disk url file_name date date_s w =
     (case net (length (w_requests w)) url of
        Inl e \<Rightarrow> (w\<lparr>w_requests := w_requests w @ [(date, url)]\<rparr>, Some e)
      | Inr (status_code, content) \<Rightarrow>
          if status_code = 200 then
            (case disk file_name of
               Some e \<Rightarrow> (w\<lparr>w_requests := w_requests w @ [(date, url)]\<rparr>, Some e)
             | None \<Rightarrow>
                 (writerow [date_s, ustr ''Success'', ustr ''Downloaded'']
                    (w\<lparr>w_requests := w_requests w @ [(date, url)],
                       w_files := w_files w @ [(file_name, content)]\<rparr>), None))
          else if status_code = 404 then
            (writerow [date_s, ustr ''Not Found'', ustr ''URL not found'']
               (w\<lparr>w_requests := w_requests w @ [(date, url)]\<rparr>), None)
          else
            (writerow [date_s, ustr ''Failed'', ustr ''HTTP '' @ str_int status_code]
               (w\<lparr>w_requests := w_requests w @ [(date, url)]\<rparr>), None))"

text \<open>\<open>handle_download\<close>, with its \<open>except requests.exceptions.RequestException\<close>.\<close>

definition handle_download :: "network \<Rightarrow> disk \<Rightarrow> timestamp \<Rightarrow> ustring \<Rightarrow> world \<Rightarrow>
    world \<times> exn option" where
  "handle_download net disk date date_s w =
     (case get_term date of
        None \<Rightarrow> (writerow [date_s, ustr ''Failed'', ustr ''Term not found''] w, None)
      | Some term \<Rightarrow>
          if term = 0 then (writerow [date_s, ustr ''Failed'', ustr ''Term not found''] w, None)
          else
            (case fetch net disk (build_url term date)
                    (ustr ''CRE-'' @ str_int term @ [45] @ date_s @ ustr ''.xml'') date date_s w of
               (w', None) \<Rightarrow> (w', None)
             | (w', Some e) \<Rightarrow>
                 if exn_class_of e = RequestException
                 then (writerow [date_s, ustr ''Request Error'', exn_message e] w', None)
                 else (w', Some e)))"

text \<open>The loop over the dates of \<open>download_speeches\<close>; an exception that
  \<open>handle_download\<close> lets through ends the run.\<close>

fun speech_dates :: "network \<Rightarrow> disk \<Rightarrow> dataframe \<Rightarrow> timestamp list \<Rightarrow> world \<Rightarrow>
    world \<times> exn option" where
  "speech_dates net disk log_df [] w = (w, None)"
| "speech_dates net disk log_df (date # dates) w =
     (if has_row log_df (ustr ''Success'') (date_str date) \<or>
         has_row log_df (ustr ''Not Found'') (date_str date)
      then speech_dates net disk log_df dates w
      else (case handle_download net disk date (date_str date) w of
              (w', None) \<Rightarrow> speech_dates net disk log_df dates w'
            | (w', Some e) \<Rightarrow> (w', Some e)))"

text \<open>Opening the log for appending creates it when it does not exist, and the header is
  written when the file is empty.\<close>

definition open_log :: "world \<Rightarrow> world" where
  "open_log w =
     (case w_log w of
        None \<Rightarrow> w\<lparr>w_log := Some [log_header]\<rparr>
      | Some file \<Rightarrow> if file = [] then w\<lparr>w_log := Some [log_header]\<rparr> else w)"

text \<open>\<open>download_speeches\<close>; \<open>pd.date_range(start, end, freq='D')\<close> is the list of the days
  from \<open>start_date\<close> to \<open>end_date\<close>.\<close>

definition download_speeches :: "csv_reader \<Rightarrow> network \<Rightarrow> disk \<Rightarrow> timestamp \<Rightarrow> timestamp \<Rightarrow> world \<Rightarrow>
    world \<times> exn option" where
  "download_speeches read_csv net disk start_date end_date w =
     (case initialize_log read_csv w of
        Inl e \<Rightarrow> (w, Some e)
      | Inr (log_df, w') \<Rightarrow> speech_dates net disk log_df [start_date..end_date] (open_log w'))"

subsection \<open>\<open>codes/voting.py\<close>\<close>

text \<open>The body of the loop of \<open>download_votings\<close> for a date that is not skipped, with its
  three \<open>except\<close> clauses in their order.\<close>

definition voting_download :: "network \<Rightarrow> disk \<Rightarrow> timestamp \<Rightarrow> ustring \<Rightarrow> world \<Rightarrow>
    world \<times> exn option" where
  "voting_download net disk date date_s w =
     (case voting_get_term date of
        None \<Rightarrow> (writerow [date_s, ustr ''Failed'', ustr ''Term not found''] w, None)
      | Some term \<Rightarrow>
          if term = 0 then (writerow [date_s, ustr ''Failed'', ustr ''Term not found''] w, None)
          else
            (case fetch net disk (build_url_vote term date)
                    (ustr ''PV-'' @ str_int term @ [45] @ date_s @ ustr ''.xml'') date date_s w of
               (w', None) \<Rightarrow> (w', None)
             | (w', Some e) \<Rightarrow>
                 if exn_class_of e = RequestException
                 then (writerow [date_s, ustr ''Request Error'', exn_message e] w', None)
                 else if is_OSError e
                 then (writerow [date_s, ustr ''File Error'', exn_message e] w', None)
                 else if is_ValueError e
                 then (writerow [date_s, ustr ''Value Error'', exn_message e] w', None)
                 else (w', Some e)))"

fun voting_dates :: "network \<Rightarrow> disk \<Rightarrow> dataframe \<Rightarrow> timestamp list \<Rightarrow> world \<Rightarrow>
    world \<times> exn option" where
  "voting_dates net disk existing_log [] w = (w, None)"
| "voting_dates net disk existing_log (date # dates) w =
     (if has_row existing_log (ustr ''Success'') (date_str date) \<or>
         has_row existing_log (ustr ''Not Found'') (date_str date)
      then voting_dates net disk existing_log dates w
      else (case voting_download net disk date (date_str date) w of
              (w', None) \<Rightarrow> voting_dates net disk existing_log dates w'
            | (w', Some e) \<Rightarrow> (w', Some e)))"

text \<open>\<open>download_votings\<close>; its \<open>initialize_log\<close> is the one of \<open>codes/speech.py\<close> but for
  the name of the log file.\<close>

definition download_votings :: "csv_reader \<Rightarrow> network \<Rightarrow> disk \<Rightarrow> timestamp \<Rightarrow> timestamp \<Rightarrow> world \<Rightarrow>
    world \<times> exn option" where
  "download_votings read_csv net disk start_date end_date w =
     (case initialize_log read_csv w of
        Inl e \<Rightarrow> (w, Some e)
      | Inr (existing_log, w') \<Rightarrow>
          voting_dates net disk existing_log [start_date..end_date] (open_log w'))"

text \<open>What a run added: the calls it made and the rows it appended to the log.\<close>

definition requests_issued :: "world \<Rightarrow> world \<Rightarrow> (timestamp \<times> ustring) list" where
  "requests_issued before after = drop (length (w_requests before)) (w_requests after)"

definition log_rows :: "world \<Rightarrow> log_file" where
  "log_rows w = (case w_log w of None \<Rightarrow> [] | Some rows \<Rightarrow> rows)"

definition rows_appended :: "world \<Rightarrow> world \<Rightarrow> log_file" where
  "rows_appended before after = drop (length (log_rows before)) (log_rows after)"

text \<open>A reader for the logs that the fetcher itself writes: the first row names the
  columns, and every other row gives one cell to each column, by position.\<close>

definition read_written_log :: csv_reader where
  "read_written_log file =
     (case file of
        [] \<Rightarrow> Inl (Exn EmptyDataError (ustr ''No columns to parse from file''))
      | header # rows \<Rightarrow> Inr \<lparr>df_columns = header, df_rows = map (zip header) rows\<rparr>)"

subsection \<open>An example run\<close>

text \<open>A network that has the speeches of 2024-01-15, answers 404 for 2024-01-16 and 500
  for every other document; an output directory without a log; and the same directory
  after a run over 2024-01-15 to 2024-01-17 (the days 19737 to 19739).\<close>

definition example_net :: network where
  "example_net n url =
     (if url = build_url 9 19737 then Inr (200, ustr ''<DEBATS/>'')
      else if url = build_url 9 19738 then Inr (404, [])
      else Inr (500, []))"

definition fresh_world :: world where
  "fresh_world = \<lparr>w_log = None, w_files = [], w_requests = [], w_printed = []\<rparr>"

definition resumed_world :: world where
  "resumed_world =
     \<lparr>w_log = Some
        [log_header,
         [ustr ''2024-01-15'', ustr ''Success'', ustr ''Downloaded''],
         [ustr ''2024-01-16'', ustr ''Not Found'', ustr ''URL not found''],
         [ustr ''2024-01-17'', ustr ''Failed'', ustr ''HTTP 500'']],
      w_files = [(ustr ''CRE-9-2024-01-15.xml'', ustr ''<DEBATS/>'')],
      w_requests =
        [(19737, build_url 9 19737), (19738, build_url 9 19738), (19739, build_url 9 19739)],
      w_printed = []\<rparr>"


section \<open>Properties of the chunk splitter\<close>

declare split_loop.simps [code]

lemma length_lstrip_le: "length (lstrip s) \<le> length s"
  by (simp add: lstrip_def length_dropWhile_le)

lemma length_rstrip_le: "length (rstrip s) \<le> length s"
  using length_dropWhile_le [of is_space "rev s"] by (simp add: rstrip_def)

lemma length_strip_le: "length (strip s) \<le> length s"
  using length_rstrip_le [of "lstrip s"] length_lstrip_le [of s] by (simp add: strip_def)

lemma length_strip_less: "s \<noteq> [] \<Longrightarrow> is_space (hd s) \<Longrightarrow> length (strip s) < length s"
proof -
  assume a: "s \<noteq> []" "is_space (hd s)"
  then obtain c cs where s: "s = c # cs" by (cases s) auto
  with a have "lstrip s = lstrip cs" by (simp add: lstrip_def)
  then have "length (lstrip s) \<le> length cs" using length_lstrip_le [of cs] by simp
  then show ?thesis using length_rstrip_le [of "lstrip s"] s by (simp add: strip_def)
qed

lemma filter_dropWhile_neg: "filter (\<lambda>c. \<not> P c) (dropWhile P s) = filter (\<lambda>c. \<not> P c) s"
  by (induction s) auto

lemma filter_strip: "filter (\<lambda>c. \<not> is_space c) (strip s) = filter (\<lambda>c. \<not> is_space c) s"
proof -
  have "filter (\<lambda>c. \<not> is_space c) (rstrip t) = filter (\<lambda>c. \<not> is_space c) t" for t
    using filter_dropWhile_neg [of is_space "rev t"]
    by (simp add: rstrip_def rev_filter [symmetric])
  then show ?thesis by (simp add: strip_def lstrip_def filter_dropWhile_neg)
qed

lemma set_strip: "set (strip s) \<subseteq> set s"
proof -
  have "set (rstrip t) \<subseteq> set t" for t
    using set_dropWhileD [of _ is_space "rev t"] by (auto simp: rstrip_def)
  moreover have "set (lstrip t) \<subseteq> set t" for t
    using set_dropWhileD [of _ is_space t] by (auto simp: lstrip_def)
  ultimately show ?thesis unfolding strip_def by blast
qed

lemma rfind_cases:
  "rfind s c start end = - 1 \<or>
   (0 \<le> rfind s c start end \<and> nat (rfind s c start end) < slice_bound (length s) end \<and>
    s ! nat (rfind s c start end) = c)"
proof -
  let ?hits = "filter (\<lambda>i. s ! i = c) [slice_bound (length s) start ..< slice_bound (length s) end]"
  show ?thesis
  proof (cases "?hits = []")
    case True
    then show ?thesis by (simp add: rfind_def)
  next
    case False
    then have "last ?hits \<in> set ?hits" by (rule last_in_set)
    then have "s ! last ?hits = c \<and> last ?hits < slice_bound (length s) end" by auto
    with False show ?thesis by (simp add: rfind_def Let_def)
  qed
qed

lemma split_step:
  assumes m: "0 < m" and big: "int (length s) > m"
  defines "k \<equiv> (if rfind s 32 0 m = - 1 then m else rfind s 32 0 m)"
  shows "slice_bound (length s) k \<le> nat m"
    and "length (slice_to s k) \<le> nat m"
    and "length (strip (slice_from s k)) < length s"
    and "slice_to s k @ slice_from s k = s"
proof -
  have sb: "slice_bound (length s) m = nat m" using m big by (simp add: slice_bound_def)
  show b: "slice_bound (length s) k \<le> nat m"
  proof (cases "rfind s 32 0 m = - 1")
    case True
    then show ?thesis by (simp add: k_def sb)
  next
    case False
    then have "0 \<le> rfind s 32 0 m \<and> nat (rfind s 32 0 m) < nat m"
      using rfind_cases [of s 32 0 m] sb by simp
    with False show ?thesis using big unfolding k_def slice_bound_def by auto
  qed
  then show "length (slice_to s k) \<le> nat m" by (simp add: slice_to_def)
  show "slice_to s k @ slice_from s k = s" by (simp add: slice_to_def slice_from_def)
  show "length (strip (slice_from s k)) < length s"
  proof (cases "slice_bound (length s) k = 0")
    case False
    then have "length (slice_from s k) < length s"
      using big m by (simp add: slice_from_def)
    then show ?thesis using length_strip_le [of "slice_from s k"] by simp
  next
    case True
    have ne: "rfind s 32 0 m \<noteq> - 1"
    proof
      assume "rfind s 32 0 m = - 1"
      then have "k = m" by (simp add: k_def)
      with True sb m show False by simp
    qed
    then have r: "0 \<le> rfind s 32 0 m" "s ! nat (rfind s 32 0 m) = 32"
      using rfind_cases [of s 32 0 m] by auto
    from ne have kk: "k = rfind s 32 0 m" by (simp add: k_def)
    with True r(1) big m have "nat (rfind s 32 0 m) = 0"
      by (simp add: slice_bound_def split: if_splits)
    with r(2) have "s ! 0 = 32" by simp
    moreover have tne: "s \<noteq> []" using big m by auto
    ultimately have "is_space (hd s)" by (simp add: hd_conv_nth is_space_def)
    moreover have "slice_from s k = s" using True by (simp add: slice_from_def)
    ultimately show ?thesis using length_strip_less [of s] tne by simp
  qed
qed

lemma split_loop_inv:
  assumes m: "0 < m"
  shows "\<exists>cs. split_loop s m acc = Some (acc @ cs) \<and> cs \<noteq> [] \<and>
           (\<forall>c \<in> set cs. length c \<le> nat m) \<and>
           filter (\<lambda>c. \<not> is_space c) (concat cs) = filter (\<lambda>c. \<not> is_space c) s \<and>
           set (concat cs) \<subseteq> set s"
proof (induction s arbitrary: acc rule: length_induct)
  case (1 s)
  show ?case
  proof (cases "int (length s) > m")
    case False
    then have "split_loop s m acc = Some (acc @ [s])"
      by (subst split_loop.simps) simp
    moreover have "length s \<le> nat m" using False by simp
    ultimately show ?thesis by auto
  next
    case True
    define k where "k = (if rfind s 32 0 m = - 1 then m else rfind s 32 0 m)"
    note st = split_step [OF m True, folded k_def]
    have unf: "split_loop s m acc =
        split_loop (strip (slice_from s k)) m (acc @ [slice_to s k])"
      using True by (subst split_loop.simps) (simp add: Let_def k_def)
    from "1.IH" st(3) obtain cs where cs:
      "split_loop (strip (slice_from s k)) m (acc @ [slice_to s k]) =
         Some ((acc @ [slice_to s k]) @ cs)"
      "cs \<noteq> []" "\<forall>c \<in> set cs. length c \<le> nat m"
      "filter (\<lambda>c. \<not> is_space c) (concat cs) =
         filter (\<lambda>c. \<not> is_space c) (strip (slice_from s k))"
      "set (concat cs) \<subseteq> set (strip (slice_from s k))"
      by blast
    let ?cs = "slice_to s k # cs"
    have a: "split_loop s m acc = Some (acc @ ?cs)" using unf cs(1) by simp
    have b: "\<forall>c \<in> set ?cs. length c \<le> nat m" using cs(3) st(2) by simp
    have "filter (\<lambda>c. \<not> is_space c) (concat ?cs) =
        filter (\<lambda>c. \<not> is_space c) (slice_to s k @ slice_from s k)"
      using cs(4) by (simp add: filter_strip)
    then have c: "filter (\<lambda>c. \<not> is_space c) (concat ?cs) = filter (\<lambda>c. \<not> is_space c) s"
      by (simp only: st(4))
    have "set (slice_to s k) \<subseteq> set s" "set (slice_from s k) \<subseteq> set s"
      by (auto simp: slice_to_def slice_from_def dest: in_set_takeD in_set_dropD)
    then have d: "set (concat ?cs) \<subseteq> set s"
      using cs(5) set_strip [of "slice_from s k"] by auto
    from a b c d show ?thesis by blast
  qed
qed

lemma join_empty_concat: "join [] cs = concat cs"
  by (induction "[] :: ustring" cs rule: join.induct) simp_all

lemma split_loop_stop:
  "\<not> max_length < int (length s) \<Longrightarrow> split_loop s max_length chunks = Some (chunks @ [s])"
  by (subst split_loop.simps) simp

lemma split_loop_step:
  "max_length < int (length s) \<Longrightarrow>
   split_loop s max_length chunks =
     split_loop
       (strip (slice_from s (if rfind s 32 0 max_length = - 1 then max_length else rfind s 32 0 max_length)))
       max_length
       (chunks @ [slice_to s (if rfind s 32 0 max_length = - 1 then max_length else rfind s 32 0 max_length)])"
  by (subst split_loop.simps) (simp add: Let_def)

lemmas str_eval = ustr_def rfind_def slice_bound_def slice_to_def slice_from_def
  strip_def lstrip_def rstrip_def is_space_def Let_def

lemma whitespace_only_append:
  "whitespace_only (a @ b) \<longleftrightarrow> whitespace_only a \<and> whitespace_only b"
  by (simp add: whitespace_only_def)

lemma whitespace_only_takeWhile: "whitespace_only (takeWhile is_space s)"
  by (auto simp add: whitespace_only_def list_all_iff dest: set_takeWhileD)

lemma strip_decompose:
  "\<exists>l t. s = l @ strip s @ t \<and> whitespace_only l \<and> whitespace_only t"
proof -
  let ?l = "takeWhile is_space s"
  let ?y = "dropWhile is_space s"
  let ?t = "rev (takeWhile is_space (rev ?y))"
  have "rev (takeWhile is_space (rev ?y) @ dropWhile is_space (rev ?y)) = rev (rev ?y)"
    by (simp only: takeWhile_dropWhile_id)
  then have "rev (dropWhile is_space (rev ?y)) @ ?t = ?y"
    by (simp only: rev_append rev_rev_ident)
  then have y: "?y = rstrip ?y @ ?t" by (simp add: rstrip_def)
  have "s = ?l @ ?y" by simp
  with y have "s = ?l @ strip s @ ?t" by (simp add: strip_def lstrip_def)
  moreover have "whitespace_only ?l" by (rule whitespace_only_takeWhile)
  moreover have "whitespace_only ?t"
    using whitespace_only_takeWhile [of "rev ?y"] by (simp add: whitespace_only_def)
  ultimately show ?thesis by blast
qed

lemma interleave_Cons: "interleave (c # cs) (g # gs) = c @ g @ interleave cs gs"
  by (simp add: interleave_def)

lemma interleave_trail:
  "length gs = length cs \<Longrightarrow> cs \<noteq> [] \<Longrightarrow>
   interleave cs (butlast gs @ [last gs @ t]) = interleave cs gs @ t"
proof (induction cs arbitrary: gs)
  case Nil
  then show ?case by simp
next
  case (Cons c cs)
  then obtain g gs' where gs: "gs = g # gs'" by (cases gs) auto
  show ?case
  proof (cases "cs = []")
    case True
    with Cons.prems gs show ?thesis by (simp add: interleave_def)
  next
    case False
    with Cons.prems gs have "gs' \<noteq> []" by auto
    with Cons.IH [of gs'] Cons.prems gs False show ?thesis by (simp add: interleave_Cons)
  qed
qed

lemma split_loop_gaps:
  assumes m: "0 < m"
  shows "\<exists>cs gs. split_loop s m acc = Some (acc @ cs) \<and> cs \<noteq> [] \<and>
           length gs = length cs \<and> list_all whitespace_only gs \<and> interleave cs gs = s \<and>
           (int (length s) \<le> m \<longrightarrow> cs = [s])"
proof (induction s arbitrary: acc rule: length_induct)
  case (1 s)
  show ?case
  proof (cases "int (length s) > m")
    case False
    then have "split_loop s m acc = Some (acc @ [s])"
      by (subst split_loop.simps) simp
    moreover have "interleave [s] [[]] = s" by (simp add: interleave_def)
    moreover have "list_all whitespace_only [[]]" by (simp add: whitespace_only_def)
    ultimately show ?thesis by (intro exI [of _ "[s]"] exI [of _ "[[]]"]) simp
  next
    case True
    define k where "k = (if rfind s 32 0 m = - 1 then m else rfind s 32 0 m)"
    note st = split_step [OF m True, folded k_def]
    have unf: "split_loop s m acc =
        split_loop (strip (slice_from s k)) m (acc @ [slice_to s k])"
      using True by (subst split_loop.simps) (simp add: Let_def k_def)
    from "1.IH" st(3) obtain cs gs where cs:
      "split_loop (strip (slice_from s k)) m (acc @ [slice_to s k]) =
         Some ((acc @ [slice_to s k]) @ cs)"
      "cs \<noteq> []" "length gs = length cs" "list_all whitespace_only gs"
      "interleave cs gs = strip (slice_from s k)"
      by blast
    obtain l t where lt: "slice_from s k = l @ strip (slice_from s k) @ t"
      "whitespace_only l" "whitespace_only t"
      using strip_decompose [of "slice_from s k"] by blast
    let ?cs = "slice_to s k # cs"
    let ?gs = "l # butlast gs @ [last gs @ t]"
    from cs(2,3) have gne: "gs \<noteq> []" by auto
    have a: "split_loop s m acc = Some (acc @ ?cs)" using unf cs(1) by simp
    have b: "length ?gs = length ?cs" using cs(2,3) by (cases cs) simp_all
    have "list_all whitespace_only (butlast gs)" "whitespace_only (last gs)"
      using cs(4) gne by (auto simp add: list_all_iff dest: in_set_butlastD)
    then have c: "list_all whitespace_only ?gs"
      using lt(2,3) by (simp add: whitespace_only_append)
    have "interleave ?cs ?gs = slice_to s k @ l @ strip (slice_from s k) @ t"
      using interleave_trail [OF cs(3,2), of t] cs(5) by (simp add: interleave_Cons)
    also have "\<dots> = slice_to s k @ slice_from s k" using lt(1) by simp
    also have "\<dots> = s" by (rule st(4))
    finally have d: "interleave ?cs ?gs = s" .
    from a b c d True show ?thesis
      by (intro exI [of _ ?cs] exI [of _ ?gs]) simp
  qed
qed

lemma split_loop_abc_diverges:
  assumes "split_loop s m acc = Some y"
  shows "\<not> (s = [97, 98, 99] \<and> m = 0)"
proof (rule split_loop.raw_induct
    [where P = "\<lambda>s m acc y. \<not> (s = [97, 98, 99] \<and> m = 0)", OF _ assms])
  fix split_loop' :: "ustring \<Rightarrow> int \<Rightarrow> ustring list \<Rightarrow> ustring list option"
    and s0 max_length chunks y
  assume IH: "\<And>s m acc y. split_loop' s m acc = Some y \<Longrightarrow> \<not> (s = [97, 98, 99] \<and> m = 0)"
    and body: "(if max_length < int (length s0)
      then let found = rfind s0 32 0 max_length;
               split_index = if found = - 1 then max_length else found
           in split_loop' (strip (slice_from s0 split_index)) max_length
               (chunks @ [slice_to s0 split_index])
      else Some (chunks @ [s0])) = Some y"
  show "\<not> (s0 = [97, 98, 99] \<and> max_length = 0)"
  proof
    assume h: "s0 = [97, 98, 99] \<and> max_length = 0"
    with body have "split_loop' [97, 98, 99] 0 (chunks @ [[]]) = Some y"
      by (simp add: str_eval)
    from IH [OF this] show False by simp
  qed
qed

text \<open>
  Claim C10. For every text and every positive maximum length the splitter returns, and
  what it returns is a non-empty list of chunks; each pass of the loop strictly shortens the
  remaining text, also when the last space before the threshold is at index 0 (there the
  chunk is empty and \<open>strip\<close> removes the leading space).
\<close>

theorem split_text_into_chunks_total:
  assumes "0 < max_length"
  shows "(\<exists>chunks. split_text_into_chunks s max_length = Some chunks \<and> chunks \<noteq> []) \<and>
         (max_length < int (length s) \<longrightarrow>
            length (strip (slice_from s
              (if rfind s 32 0 max_length = - 1 then max_length else rfind s 32 0 max_length)))
            < length s)"
proof (rule conjI)
  obtain cs where "split_loop s max_length [] = Some ([] @ cs)" "cs \<noteq> []"
    using split_loop_inv [OF assms, of s "[]"] by (elim exE conjE)
  then show "\<exists>chunks. split_text_into_chunks s max_length = Some chunks \<and> chunks \<noteq> []"
    by (simp add: split_text_into_chunks_def)
next
  show "max_length < int (length s) \<longrightarrow>
            length (strip (slice_from s
              (if rfind s 32 0 max_length = - 1 then max_length else rfind s 32 0 max_length)))
            < length s"
    by (rule impI) (rule split_step(3) [OF assms])
qed

theorem split_text_into_chunks_total_witness:
  "(\<exists>chunks. split_text_into_chunks [32, 97, 97, 97, 97] 1 = Some chunks \<and> chunks \<noteq> []) \<and>
   length (strip (slice_from [32, 97, 97, 97, 97]
      (if rfind [32, 97, 97, 97, 97] 32 0 1 = - 1 then 1 else rfind [32, 97, 97, 97, 97] 32 0 1)))
     < length [32, 97, 97, 97, 97 :: nat]"
proof -
  have h: "(0::int) < 1" by simp
  have g: "(1::int) < int (length [32, 97, 97, 97, 97 :: nat])" by simp
  note t = split_text_into_chunks_total [OF h, of "[32, 97, 97, 97, 97]"]
  from t have a: "\<exists>chunks. split_text_into_chunks [32, 97, 97, 97, 97] 1 = Some chunks \<and> chunks \<noteq> []"
    by (rule conjunct1)
  from t have "(1::int) < int (length [32, 97, 97, 97, 97 :: nat]) \<longrightarrow>
     length (strip (slice_from [32, 97, 97, 97, 97]
      (if rfind [32, 97, 97, 97, 97] 32 0 1 = - 1 then 1 else rfind [32, 97, 97, 97, 97] 32 0 1)))
     < length [32, 97, 97, 97, 97 :: nat]"
    by (rule conjunct2)
  then have b: "length (strip (slice_from [32, 97, 97, 97, 97]
      (if rfind [32, 97, 97, 97, 97] 32 0 1 = - 1 then 1 else rfind [32, 97, 97, 97, 97] 32 0 1)))
     < length [32, 97, 97, 97, 97 :: nat]" using g by (rule mp)
  from a b show ?thesis by (rule conjI)
qed

text \<open>
  Claim C3, as stated, fails in two ways. The remainder is stripped after every split, so
  whitespace at a split point is lost: on \<open>"ab  cd"\<close> (two spaces) with threshold 3 the
  chunks are \<open>"ab"\<close> and \<open>"cd"\<close>, and neither \<open>"".join\<close> nor \<open>" ".join\<close> gives the
  text back. And not every threshold gives chunks: on \<open>"abc"\<close> with threshold 0 the loop
  never ends (no space is found in the empty window, the split index is 0, the chunk is
  empty and the text stays \<open>"abc"\<close>).
\<close>

theorem split_join_roundtrip_counterexample:
  "split_text_into_chunks (ustr ''ab  cd'') 3 = Some [ustr ''ab'', ustr ''cd''] \<and>
   join [] [ustr ''ab'', ustr ''cd''] \<noteq> ustr ''ab  cd'' \<and>
   join (ustr '' '') [ustr ''ab'', ustr ''cd''] \<noteq> ustr ''ab  cd'' \<and>
   split_text_into_chunks (ustr ''abc'') 0 = None"
proof -
  have a: "split_text_into_chunks (ustr ''ab  cd'') 3 = Some [ustr ''ab'', ustr ''cd'']"
    by (simp add: split_text_into_chunks_def split_loop_step split_loop_stop str_eval)
  have b: "join [] [ustr ''ab'', ustr ''cd''] \<noteq> ustr ''ab  cd''"
    by (simp add: ustr_def)
  have c: "join (ustr '' '') [ustr ''ab'', ustr ''cd''] \<noteq> ustr ''ab  cd''"
    by (simp add: ustr_def)
  have d: "split_text_into_chunks (ustr ''abc'') 0 = None"
  proof (cases "split_text_into_chunks (ustr ''abc'') 0")
    case None
    then show ?thesis .
  next
    case (Some y)
    then have "split_loop [97, 98, 99] 0 [] = Some y"
      by (simp add: split_text_into_chunks_def ustr_def)
    from split_loop_abc_diverges [OF this] show ?thesis by simp
  qed
  from a b c d show ?thesis by (intro conjI)
qed

text \<open>
  Claim C3, amended. For every text and every positive threshold the splitter returns
  chunks that are all of length at most the threshold (a whitespace-free run is split hard
  at the threshold), and joining them gives the text back up to the whitespace dropped at
  the split points: the text is the chunks in order, each followed by a run of whitespace
  (possibly empty; the run after the last chunk is whitespace at the end of the text).
  A text no longer than the threshold is returned as the only chunk, unchanged. So the
  non-whitespace characters of the joined chunks are those of the text, in order, and for
  a text without whitespace the join is the text itself.
\<close>

theorem split_join_roundtrip:
  assumes "0 < max_length"
  shows "\<exists>chunks gaps. split_text_into_chunks s max_length = Some chunks \<and>
           (\<forall>c \<in> set chunks. int (length c) \<le> max_length) \<and>
           length gaps = length chunks \<and> list_all whitespace_only gaps \<and>
           interleave chunks gaps = s \<and>
           (int (length s) \<le> max_length \<longrightarrow> chunks = [s]) \<and>
           filter (\<lambda>c. \<not> is_space c) (join [] chunks) = filter (\<lambda>c. \<not> is_space c) s \<and>
           ((\<forall>c \<in> set s. \<not> is_space c) \<longrightarrow> join [] chunks = s)"
proof -
  obtain cs where cs: "split_loop s max_length [] = Some ([] @ cs)"
    "\<forall>c \<in> set cs. length c \<le> nat max_length"
    "filter (\<lambda>c. \<not> is_space c) (concat cs) = filter (\<lambda>c. \<not> is_space c) s"
    "set (concat cs) \<subseteq> set s"
    using split_loop_inv [OF assms, of s "[]"] by (elim exE conjE)
  obtain cs' gs where gs: "split_loop s max_length [] = Some ([] @ cs')"
    "length gs = length cs'" "list_all whitespace_only gs" "interleave cs' gs = s"
    "int (length s) \<le> max_length \<longrightarrow> cs' = [s]"
    using split_loop_gaps [OF assms, of s "[]"] by (elim exE conjE)
  from cs(1) gs(1) have same: "cs' = cs" by simp
  have a: "split_text_into_chunks s max_length = Some cs"
    using cs(1) by (simp add: split_text_into_chunks_def)
  have b: "\<forall>c \<in> set cs. int (length c) \<le> max_length"
  proof
    fix c assume "c \<in> set cs"
    with cs(2) have "length c \<le> nat max_length" by (rule bspec)
    then show "int (length c) \<le> max_length" using assms by (simp add: le_nat_iff)
  qed
  have c: "filter (\<lambda>c. \<not> is_space c) (join [] cs) = filter (\<lambda>c. \<not> is_space c) s"
    using cs(3) by (simp only: join_empty_concat)
  have d: "(\<forall>c \<in> set s. \<not> is_space c) \<longrightarrow> join [] cs = s"
  proof
    assume ns: "\<forall>c \<in> set s. \<not> is_space c"
    have "\<forall>c \<in> set (concat cs). \<not> is_space c"
    proof
      fix c assume "c \<in> set (concat cs)"
      with cs(4) have "c \<in> set s" by (rule subsetD)
      with ns show "\<not> is_space c" by (rule bspec)
    qed
    then have "filter (\<lambda>c. \<not> is_space c) (concat cs) = concat cs" by (rule filter_True)
    moreover from ns have "filter (\<lambda>c. \<not> is_space c) s = s" by (rule filter_True)
    ultimately have "concat cs = s" using cs(3) by metis
    then show "join [] cs = s" by (simp only: join_empty_concat)
  qed
  have e1: "length gs = length cs" using gs(2) by (simp only: same)
  have e2: "interleave cs gs = s" using gs(4) by (simp only: same)
  have e3: "int (length s) \<le> max_length \<longrightarrow> cs = [s]" using gs(5) by (simp only: same)
  from a b e1 gs(3) e2 e3 c d show ?thesis
    by (intro exI [of _ cs] exI [of _ gs] conjI)
qed

theorem split_join_roundtrip_witness:
  "split_text_into_chunks (ustr ''ab  cd  '') 3 = Some [ustr ''ab'', ustr ''cd''] \<and>
   list_all (\<lambda>c. int (length c) \<le> 3) [ustr ''ab'', ustr ''cd''] \<and>
   (\<exists>gaps. length gaps = 2 \<and> list_all whitespace_only gaps \<and>
      interleave [ustr ''ab'', ustr ''cd''] gaps = ustr ''ab  cd  '') \<and>
   split_text_into_chunks (ustr ''ab cd'') 5 = Some [ustr ''ab cd''] \<and>
   split_text_into_chunks (ustr ''aaaaa'') 2 = Some [ustr ''aa'', ustr ''aa'', ustr ''a''] \<and>
   join [] [ustr ''aa'', ustr ''aa'', ustr ''a''] = ustr ''aaaaa''"
proof -
  have h3: "(0::int) < 3" and h5: "(0::int) < 5" and h2: "(0::int) < 2" by simp_all
  have e1: "split_text_into_chunks (ustr ''ab  cd  '') 3 = Some [ustr ''ab'', ustr ''cd'']"
    by (simp add: split_text_into_chunks_def split_loop_step split_loop_stop str_eval)
  obtain chunks gaps where c1:
    "split_text_into_chunks (ustr ''ab  cd  '') 3 = Some chunks"
    "\<forall>c \<in> set chunks. int (length c) \<le> 3"
    "length gaps = length chunks" "list_all whitespace_only gaps"
    "interleave chunks gaps = ustr ''ab  cd  ''"
    using split_join_roundtrip [OF h3, of "ustr ''ab  cd  ''"] by (elim exE conjE)
  from c1(1) e1 have eq1: "chunks = [ustr ''ab'', ustr ''cd'']" by simp
  from c1(2) have b1: "list_all (\<lambda>c. int (length c) \<le> 3) chunks" by (simp only: list_all_iff)
  from c1(3) eq1 have "length gaps = 2" by simp
  with c1(4,5) have g1: "\<exists>gaps. length gaps = 2 \<and> list_all whitespace_only gaps \<and>
      interleave chunks gaps = ustr ''ab  cd  ''" by blast
  obtain chunks5 where c5: "split_text_into_chunks (ustr ''ab cd'') 5 = Some chunks5"
    "int (length (ustr ''ab cd'')) \<le> 5 \<longrightarrow> chunks5 = [ustr ''ab cd'']"
    using split_join_roundtrip [OF h5, of "ustr ''ab cd''"] by (elim exE conjE)
  have "int (length (ustr ''ab cd'')) \<le> 5" by (simp add: ustr_def)
  with c5(2) have "chunks5 = [ustr ''ab cd'']" by (rule mp)
  with c5(1) have r5: "split_text_into_chunks (ustr ''ab cd'') 5 = Some [ustr ''ab cd'']"
    by simp
  have ns: "\<forall>c \<in> set (ustr ''aaaaa''). \<not> is_space c" by (simp add: is_space_def ustr_def)
  have e2: "split_text_into_chunks (ustr ''aaaaa'') 2 = Some [ustr ''aa'', ustr ''aa'', ustr ''a'']"
    by (simp add: split_text_into_chunks_def split_loop_step split_loop_stop str_eval)
  obtain chunks2 where c2: "split_text_into_chunks (ustr ''aaaaa'') 2 = Some chunks2"
    "(\<forall>c \<in> set (ustr ''aaaaa''). \<not> is_space c) \<longrightarrow> join [] chunks2 = ustr ''aaaaa''"
    using split_join_roundtrip [OF h2, of "ustr ''aaaaa''"] by (elim exE conjE)
  from c2(1) e2 have eq2: "chunks2 = [ustr ''aa'', ustr ''aa'', ustr ''a'']" by simp
  from c2(2) ns have j2: "join [] chunks2 = ustr ''aaaaa''" by (rule mp)
  from e1 b1 g1 r5 e2 j2 show ?thesis unfolding eq1 eq2 by (intro conjI)
qed

section \<open>Term resolution\<close>

lemma to_datetime_values:
  "to_datetime 2019 7 2 = 18079" "to_datetime 2024 7 1 = 19905"
  "to_datetime 2024 7 2 = 19906" "to_datetime 2029 7 1 = 21731"
  "to_datetime 2024 1 15 = 19737" "to_datetime 1970 1 1 = 0"
  "to_datetime 2023 6 15 = 19523" "to_datetime 2025 7 10 = 20279"
  by (simp_all add: to_datetime_def)

text \<open>
  Claim C2. For every date, \<open>get_term\<close> returns 9 when the date lies in the closed interval
  from 2019-07-02 to 2024-07-01, returns 10 when it lies in the closed interval from
  2024-07-02 to 2029-07-01, and returns none for every other date; the \<open>get_term\<close> of the
  voting module computes the same mapping.
\<close>

theorem get_term_intervals:
  "get_term d =
     (if to_datetime 2019 7 2 \<le> d \<and> d \<le> to_datetime 2024 7 1 then Some 9
      else if to_datetime 2024 7 2 \<le> d \<and> d \<le> to_datetime 2029 7 1 then Some 10
      else None) \<and>
   voting_get_term d = get_term d"
  by (simp add: get_term_def voting_get_term_def date_ranges_def voting_date_ranges_def)

theorem get_term_intervals_witness:
  "get_term (to_datetime 2023 6 15) = Some 9 \<and> get_term (to_datetime 2025 7 10) = Some 10 \<and>
   get_term (to_datetime 1970 1 1) = None \<and>
   get_term (to_datetime 2024 7 1) = Some 9 \<and> get_term (to_datetime 2024 7 2) = Some 10 \<and>
   voting_get_term (to_datetime 2023 6 15) = Some 9"
  using get_term_intervals [of "to_datetime 2023 6 15"] get_term_intervals [of "to_datetime 2025 7 10"]
    get_term_intervals [of "to_datetime 1970 1 1"]
    get_term_intervals [of "to_datetime 2024 7 1"] get_term_intervals [of "to_datetime 2024 7 2"]
  by (simp add: to_datetime_values)

section \<open>Durations\<close>

lemmas hms_eval = calculate_duration_def first_piece_def py_split_def strptime_HMS_def
  hms_matches_def field_H_def field_M_def field_S_def colon_def is_digit_def digit_val_def
  timedelta_seconds_def is_ValueError_def ustr_def


























































section \<open>Extractors\<close>

lemma endswith_append: "endswith (name @ suffix) suffix"
  by (simp add: endswith_def)

lemma get_default_hit: "get_default ((k, v) # d) k dflt = v"
  by (simp add: get_default_def)

lemma xml_files_single: "xml_files [(name @ ustr ''.xml'', content)] = [(name @ ustr ''.xml'', content)]"
  by (simp add: xml_files_def endswith_append)

lemma split_For: "py_split (ustr ''Result.For'') (ustr ''.'') = [ustr ''Result'', ustr ''For'']"
  by (simp add: py_split_def ustr_def)

lemma split_Description:
  "py_split (ustr ''RollCallVote.Description.Text'') (ustr ''.'') =
     [ustr ''RollCallVote'', ustr ''Description'', ustr ''Text'']"
  by (simp add: py_split_def ustr_def)

lemma vote_tags_distinct:
  "ustr ''Result.For'' \<noteq> ustr ''RollCallVote.Description.Text''"
  "ustr ''RollCallVote.Description.Text'' \<noteq> ustr ''Result.For''"
  "ustr ''RollCallVote.Description.Text'' \<noteq> ustr ''Result.PoliticalGroup.List''"
  "ustr ''Result.For'' \<noteq> ustr ''Result.PoliticalGroup.List''"
  "ustr ''Test Motion'' \<noteq> []" "ustr ''Jane Doe'' \<noteq> []"
  by (simp_all add: ustr_def)

lemma roll_call_minimal:
  "roll_call_records session_date
     (Element (ustr ''RollCallVote.Result'') a1 x1 l1
        [Element (ustr ''RollCallVote.Description.Text'') a2 (Some (ustr ''Test Motion'')) l2 [],
         Element (ustr ''Result.For'') a3 x3 l3
           [Element (ustr ''Result.PoliticalGroup.List'') ga x4 l4
              [Element (ustr ''PoliticalGroup.Member.Name'') [(ustr ''PersId'', ustr ''123'')]
                 (Some (ustr ''Jane Doe'')) l5 []]]]) =
   Inr [\<lparr>vote_Date = session_date, vote_Description = ustr ''Test Motion'',
         vote_Vote = ustr ''For'',
         vote_PoliticalGroup = get_default ga (ustr ''Identifier'') (ustr ''NaN''),
         vote_MEP_ID = ustr ''123'', vote_Name = ustr ''Jane Doe''\<rparr>]"
  by (simp add: roll_call_records_def result_records_def member_records_def findall_def
      find_child_def or_default_def get_default_hit split_For split_Description vote_tags_distinct)

lemma vote_tags_other:
  "ustr ''RollCallVote.Description.Text'' \<noteq> ustr ''RollCallVote.Result''"
  "ustr ''Result.For'' \<noteq> ustr ''RollCallVote.Result''"
  "ustr ''Result.PoliticalGroup.List'' \<noteq> ustr ''RollCallVote.Result''"
  "ustr ''PoliticalGroup.Member.Name'' \<noteq> ustr ''RollCallVote.Result''"
  by (simp_all add: ustr_def)

text \<open>
  Claim C7. The minimal vote document: a root with one roll-call result, which holds the
  description \<open>Test Motion\<close> and one \<open>Result.For\<close> block with one political group with
  one member, of id 123 and name \<open>Jane Doe\<close>. Whatever the tag, the attributes and the
  stray text of the root and of the other elements are, \<open>parse_single_file\<close> returns exactly
  one record, with vote type \<open>For\<close>, the description, the member id and the member name,
  and \<open>parse_votings\<close> on a directory that holds this file alone writes this one row.
\<close>

theorem parse_minimal_vote_document:
  "parse_single_file (Inr (Element rt ra rx rl
     [Element (ustr ''RollCallVote.Result'') a1 x1 l1
        [Element (ustr ''RollCallVote.Description.Text'') a2 (Some (ustr ''Test Motion'')) l2 [],
         Element (ustr ''Result.For'') a3 x3 l3
           [Element (ustr ''Result.PoliticalGroup.List'') ga x4 l4
              [Element (ustr ''PoliticalGroup.Member.Name'') [(ustr ''PersId'', ustr ''123'')]
                 (Some (ustr ''Jane Doe'')) l5 []]]]])) =
   Inr [\<lparr>vote_Date = get_default ra (ustr ''Sitting.Date'') (ustr ''Unknown Date''),
         vote_Description = ustr ''Test Motion'', vote_Vote = ustr ''For'',
         vote_PoliticalGroup = get_default ga (ustr ''Identifier'') (ustr ''NaN''),
         vote_MEP_ID = ustr ''123'', vote_Name = ustr ''Jane Doe''\<rparr>] \<and>
   parse_votings [(name @ ustr ''.xml'', Inr (Element rt ra rx rl
     [Element (ustr ''RollCallVote.Result'') a1 x1 l1
        [Element (ustr ''RollCallVote.Description.Text'') a2 (Some (ustr ''Test Motion'')) l2 [],
         Element (ustr ''Result.For'') a3 x3 l3
           [Element (ustr ''Result.PoliticalGroup.List'') ga x4 l4
              [Element (ustr ''PoliticalGroup.Member.Name'') [(ustr ''PersId'', ustr ''123'')]
                 (Some (ustr ''Jane Doe'')) l5 []]]]]))] =
   Inr \<lparr>b_rows =
          [\<lparr>vote_Date = get_default ra (ustr ''Sitting.Date'') (ustr ''Unknown Date''),
            vote_Description = ustr ''Test Motion'', vote_Vote = ustr ''For'',
            vote_PoliticalGroup = get_default ga (ustr ''Identifier'') (ustr ''NaN''),
            vote_MEP_ID = ustr ''123'', vote_Name = ustr ''Jane Doe''\<rparr>],
        b_printed = [Voting_data_saved],
        b_csv = Some
          [\<lparr>vote_Date = get_default ra (ustr ''Sitting.Date'') (ustr ''Unknown Date''),
            vote_Description = ustr ''Test Motion'', vote_Vote = ustr ''For'',
            vote_PoliticalGroup = get_default ga (ustr ''Identifier'') (ustr ''NaN''),
            vote_MEP_ID = ustr ''123'', vote_Name = ustr ''Jane Doe''\<rparr>]\<rparr>"
proof -
  let ?rc = "Element (ustr ''RollCallVote.Result'') a1 x1 l1
        [Element (ustr ''RollCallVote.Description.Text'') a2 (Some (ustr ''Test Motion'')) l2 [],
         Element (ustr ''Result.For'') a3 x3 l3
           [Element (ustr ''Result.PoliticalGroup.List'') ga x4 l4
              [Element (ustr ''PoliticalGroup.Member.Name'') [(ustr ''PersId'', ustr ''123'')]
                 (Some (ustr ''Jane Doe'')) l5 []]]]"
  have fd: "findall_deep (Element rt ra rx rl [?rc]) (ustr ''RollCallVote.Result'') = [?rc]"
    by (simp add: findall_deep_def vote_tags_other)
  have one: "parse_single_file (Inr (Element rt ra rx rl [?rc])) =
      Inr [\<lparr>vote_Date = get_default ra (ustr ''Sitting.Date'') (ustr ''Unknown Date''),
         vote_Description = ustr ''Test Motion'', vote_Vote = ustr ''For'',
         vote_PoliticalGroup = get_default ga (ustr ''Identifier'') (ustr ''NaN''),
         vote_MEP_ID = ustr ''123'', vote_Name = ustr ''Jane Doe''\<rparr>]"
    unfolding parse_single_file_def by (simp add: fd roll_call_minimal)
  have "parse_votings [(name @ ustr ''.xml'', Inr (Element rt ra rx rl [?rc]))] =
      Inr \<lparr>b_rows =
          [\<lparr>vote_Date = get_default ra (ustr ''Sitting.Date'') (ustr ''Unknown Date''),
            vote_Description = ustr ''Test Motion'', vote_Vote = ustr ''For'',
            vote_PoliticalGroup = get_default ga (ustr ''Identifier'') (ustr ''NaN''),
            vote_MEP_ID = ustr ''123'', vote_Name = ustr ''Jane Doe''\<rparr>],
        b_printed = [Voting_data_saved],
        b_csv = Some
          [\<lparr>vote_Date = get_default ra (ustr ''Sitting.Date'') (ustr ''Unknown Date''),
            vote_Description = ustr ''Test Motion'', vote_Vote = ustr ''For'',
            vote_PoliticalGroup = get_default ga (ustr ''Identifier'') (ustr ''NaN''),
            vote_MEP_ID = ustr ''123'', vote_Name = ustr ''Jane Doe''\<rparr>]\<rparr>"
    unfolding parse_votings_def by (simp add: xml_files_single one)
  with one show ?thesis by (rule conjI)
qed

theorem parse_minimal_vote_document_witness:
  "parse_single_file (Inr minimal_vote_document) = Inr [minimal_vote_record] \<and>
   parse_votings [(ustr ''PV-9-2024-01-15'' @ ustr ''.xml'', Inr minimal_vote_document)] =
     Inr \<lparr>b_rows = [minimal_vote_record], b_printed = [Voting_data_saved],
          b_csv = Some [minimal_vote_record]\<rparr>"
  using parse_minimal_vote_document
    [where rt = "ustr ''PV.RollCallVoteResults''"
       and ra = "[(ustr ''Sitting.Date'', ustr ''2024-01-15'')]" and rx = None and rl = None
       and ?a1.0 = "[]" and ?x1.0 = None and ?l1.0 = None and ?a2.0 = "[]" and ?l2.0 = None
       and ?a3.0 = "[]" and ?x3.0 = None and ?l3.0 = None
       and ga = "[(ustr ''Identifier'', ustr ''EPP'')]" and ?x4.0 = None and ?l4.0 = None
       and ?l5.0 = None and name = "ustr ''PV-9-2024-01-15''"]
  by (simp add: minimal_vote_document_def minimal_vote_record_def get_default_def)

lemmas strip_eval = strip_def lstrip_def rstrip_def is_space_def

lemma speech_text_hello:
  "speech_text (Element (ustr ''INTERVENTION'') ia ix il
      [Element (ustr ''ORATEUR'') oa ox ol [],
       Element (ustr ''PARA'') pa (Some (ustr ''Hello world.'')) pl []]) = ustr ''Hello world.''"
  by (simp add: speech_text_def findall_def stripped_part_def truthy_def ustr_def after_first_def
      narration_sep_def lstrip_dash_def strip_eval Let_def)

lemma speaker_name_doe: "speaker_name_of (ustr ''Doe | Jane'') = Inr (ustr ''Doe Jane'')"
  by (simp add: speaker_name_of_def py_split_def ustr_def)

lemma duration_300:
  "calculate_duration zeros (ustr ''12:00:00'') (ustr ''12:05:00'') = Inr (Some 300)"
  by (simp add: hms_eval)

lemma split_vod:
  "py_split (ustr ''2024-01-15T12:00:00'') (ustr ''T'') = [ustr ''2024-01-15'', ustr ''12:00:00'']"
  "py_split (ustr ''2024-01-15T12:05:00'') (ustr ''T'') = [ustr ''2024-01-15'', ustr ''12:05:00'']"
  by (simp_all add: py_split_def ustr_def)

lemma speech_tags_distinct:
  "ustr ''NUMERO'' \<noteq> ustr ''CHAPTER''" "ustr ''INTERVENTION'' \<noteq> ustr ''CHAPTER''"
  "ustr ''ORATEUR'' \<noteq> ustr ''CHAPTER''" "ustr ''PARA'' \<noteq> ustr ''CHAPTER''"
  "ustr ''NUMERO'' \<noteq> ustr ''TL-CHAP''" "ustr ''INTERVENTION'' \<noteq> ustr ''TL-CHAP''"
  "ustr ''INTERVENTION'' \<noteq> ustr ''NUMERO''"
  "ustr ''LIB'' \<noteq> ustr ''MEPID''" "ustr ''LIB'' \<noteq> ustr ''PP''"
  "ustr ''LIB'' \<noteq> ustr ''SPEAKER_TYPE''"
  "ustr ''MEPID'' \<noteq> ustr ''LIB''" "ustr ''PP'' \<noteq> ustr ''LIB''"
  "ustr ''SPEAKER_TYPE'' \<noteq> ustr ''LIB''"
  "ustr ''VOD-START'' \<noteq> ustr ''VOD-END''" "ustr ''VOD-END'' \<noteq> ustr ''VOD-START''"
  "ustr ''2024-01-15T12:00:00'' \<noteq> []" "ustr ''2024-01-15T12:05:00'' \<noteq> []"
  "ustr ''2024-01-15'' \<noteq> []" "ustr ''12:00:00'' \<noteq> []" "ustr ''12:05:00'' \<noteq> []"
  by (simp_all add: ustr_def)

lemma speech_parse_minimal:
  "speech_parse zeros
     (Element (ustr ''INTERVENTION'') ia ix il
        [Element (ustr ''ORATEUR'') [(ustr ''LIB'', ustr ''Doe | Jane'')] ox ol [],
         Element (ustr ''PARA'') pa (Some (ustr ''Hello world.'')) pl []])
     (ustr ''2024-01-15'') (ustr ''12:00:00'') (ustr ''12:05:00'') topic =
   Inr \<lparr>sp_Date = ustr ''2024-01-15'', sp_Time_Start = ustr ''12:00:00'',
        sp_Time_End = ustr ''12:05:00'', sp_Duration = Some 300, sp_Topic = topic,
        sp_Text = ustr ''Hello world.'', sp_MEPID = ustr ''NaN'',
        sp_Speaker_Name = ustr ''Doe Jane'', sp_Party = ustr ''NaN'',
        sp_Speaker_Type = ustr ''NaN''\<rparr>"
  unfolding speech_parse_def
  by (simp add: find_child_def findall_def get_default_def speech_tags_distinct
      speaker_name_doe duration_300 speech_text_hello)

text \<open>
  Claim C6. The minimal speech document: a root with one chapter, which holds one timing
  marker (\<open>NUMERO\<close>, from 12:00:00 to 12:05:00 on 2024-01-15) and one intervention with
  the speaker's display name \<open>Doe | Jane\<close> and one paragraph with the text
  \<open>Hello world.\<close> Whatever the tag, the attributes and the stray text of the root and of
  the other elements are, the file gives exactly one record, with the speaker name
  \<open>Doe Jane\<close>, the duration 300 and the text \<open>Hello world.\<close>, and \<open>parse_speeches\<close> on a
  directory that holds this file alone writes this one row.
\<close>

theorem parse_minimal_speech_document:
  "speech_file zeros (Inr (Element rt ra rx rl
     [Element (ustr ''CHAPTER'') ca cx cl
        [Element (ustr ''NUMERO'')
           [(ustr ''VOD-START'', ustr ''2024-01-15T12:00:00''),
            (ustr ''VOD-END'', ustr ''2024-01-15T12:05:00'')] nx nl [],
         Element (ustr ''INTERVENTION'') ia ix il
           [Element (ustr ''ORATEUR'') [(ustr ''LIB'', ustr ''Doe | Jane'')] ox ol [],
            Element (ustr ''PARA'') pa (Some (ustr ''Hello world.'')) pl []]]])) =
     ([\<lparr>sp_Date = ustr ''2024-01-15'', sp_Time_Start = ustr ''12:00:00'',
          sp_Time_End = ustr ''12:05:00'', sp_Duration = Some 300,
          sp_Topic = Some (ustr ''Unknown Topic''), sp_Text = ustr ''Hello world.'',
          sp_MEPID = ustr ''NaN'', sp_Speaker_Name = ustr ''Doe Jane'', sp_Party = ustr ''NaN'',
          sp_Speaker_Type = ustr ''NaN''\<rparr>], None) \<and>
   parse_speeches zeros [(name @ ustr ''.xml'', Inr (Element rt ra rx rl
     [Element (ustr ''CHAPTER'') ca cx cl
        [Element (ustr ''NUMERO'')
           [(ustr ''VOD-START'', ustr ''2024-01-15T12:00:00''),
            (ustr ''VOD-END'', ustr ''2024-01-15T12:05:00'')] nx nl [],
         Element (ustr ''INTERVENTION'') ia ix il
           [Element (ustr ''ORATEUR'') [(ustr ''LIB'', ustr ''Doe | Jane'')] ox ol [],
            Element (ustr ''PARA'') pa (Some (ustr ''Hello world.'')) pl []]]]))] =
     Inr \<lparr>b_rows = [\<lparr>sp_Date = ustr ''2024-01-15'', sp_Time_Start = ustr ''12:00:00'',
          sp_Time_End = ustr ''12:05:00'', sp_Duration = Some 300,
          sp_Topic = Some (ustr ''Unknown Topic''), sp_Text = ustr ''Hello world.'',
          sp_MEPID = ustr ''NaN'', sp_Speaker_Name = ustr ''Doe Jane'', sp_Party = ustr ''NaN'',
          sp_Speaker_Type = ustr ''NaN''\<rparr>],
          b_printed = [Combined_CSV_saved],
          b_csv = Some [\<lparr>sp_Date = ustr ''2024-01-15'', sp_Time_Start = ustr ''12:00:00'',
          sp_Time_End = ustr ''12:05:00'', sp_Duration = Some 300,
          sp_Topic = Some (ustr ''Unknown Topic''), sp_Text = ustr ''Hello world.'',
          sp_MEPID = ustr ''NaN'', sp_Speaker_Name = ustr ''Doe Jane'', sp_Party = ustr ''NaN'',
          sp_Speaker_Type = ustr ''NaN''\<rparr>]\<rparr>"
proof -
  let ?ch = "Element (ustr ''CHAPTER'') ca cx cl
        [Element (ustr ''NUMERO'')
           [(ustr ''VOD-START'', ustr ''2024-01-15T12:00:00''),
            (ustr ''VOD-END'', ustr ''2024-01-15T12:05:00'')] nx nl [],
         Element (ustr ''INTERVENTION'') ia ix il
           [Element (ustr ''ORATEUR'') [(ustr ''LIB'', ustr ''Doe | Jane'')] ox ol [],
            Element (ustr ''PARA'') pa (Some (ustr ''Hello world.'')) pl []]]"
  have fd: "findall_deep (Element rt ra rx rl [?ch]) (ustr ''CHAPTER'') = [?ch]"
    by (simp add: findall_deep_def speech_tags_distinct)
  have topic: "chapter_topic ?ch = Some (ustr ''Unknown Topic'')"
    by (simp add: chapter_topic_def speech_tags_distinct)
  have elems: "chapter_elems zeros (Some (ustr ''Unknown Topic'')) (None, None, None)
      [Element (ustr ''NUMERO'')
           [(ustr ''VOD-START'', ustr ''2024-01-15T12:00:00''),
            (ustr ''VOD-END'', ustr ''2024-01-15T12:05:00'')] nx nl [],
         Element (ustr ''INTERVENTION'') ia ix il
           [Element (ustr ''ORATEUR'') [(ustr ''LIB'', ustr ''Doe | Jane'')] ox ol [],
            Element (ustr ''PARA'') pa (Some (ustr ''Hello world.'')) pl []]] = ([\<lparr>sp_Date = ustr ''2024-01-15'', sp_Time_Start = ustr ''12:00:00'',
          sp_Time_End = ustr ''12:05:00'', sp_Duration = Some 300,
          sp_Topic = Some (ustr ''Unknown Topic''), sp_Text = ustr ''Hello world.'',
          sp_MEPID = ustr ''NaN'', sp_Speaker_Name = ustr ''Doe Jane'', sp_Party = ustr ''NaN'',
          sp_Speaker_Type = ustr ''NaN''\<rparr>], None)"
    by (simp add: truthy_def speech_tags_distinct split_vod speech_parse_minimal)
  have one: "speech_file zeros (Inr (Element rt ra rx rl [?ch])) = ([\<lparr>sp_Date = ustr ''2024-01-15'', sp_Time_Start = ustr ''12:00:00'',
          sp_Time_End = ustr ''12:05:00'', sp_Duration = Some 300,
          sp_Topic = Some (ustr ''Unknown Topic''), sp_Text = ustr ''Hello world.'',
          sp_MEPID = ustr ''NaN'', sp_Speaker_Name = ustr ''Doe Jane'', sp_Party = ustr ''NaN'',
          sp_Speaker_Type = ustr ''NaN''\<rparr>], None)"
    unfolding speech_file_def by (simp add: fd topic elems del: chapter_elems.simps)
  have "parse_speeches zeros [(name @ ustr ''.xml'', Inr (Element rt ra rx rl [?ch]))] =
     Inr \<lparr>b_rows = [\<lparr>sp_Date = ustr ''2024-01-15'', sp_Time_Start = ustr ''12:00:00'',
          sp_Time_End = ustr ''12:05:00'', sp_Duration = Some 300,
          sp_Topic = Some (ustr ''Unknown Topic''), sp_Text = ustr ''Hello world.'',
          sp_MEPID = ustr ''NaN'', sp_Speaker_Name = ustr ''Doe Jane'', sp_Party = ustr ''NaN'',
          sp_Speaker_Type = ustr ''NaN''\<rparr>],
          b_printed = [Combined_CSV_saved],
          b_csv = Some [\<lparr>sp_Date = ustr ''2024-01-15'', sp_Time_Start = ustr ''12:00:00'',
          sp_Time_End = ustr ''12:05:00'', sp_Duration = Some 300,
          sp_Topic = Some (ustr ''Unknown Topic''), sp_Text = ustr ''Hello world.'',
          sp_MEPID = ustr ''NaN'', sp_Speaker_Name = ustr ''Doe Jane'', sp_Party = ustr ''NaN'',
          sp_Speaker_Type = ustr ''NaN''\<rparr>]\<rparr>"
    unfolding parse_speeches_def by (simp add: xml_files_single one)
  with one show ?thesis by (rule conjI)
qed

lemma parse_single_file_minimal:
  "parse_single_file (Inr minimal_vote_document) = Inr [minimal_vote_record]"
  by (simp add: minimal_vote_document_def minimal_vote_record_def parse_single_file_def
      findall_deep_def vote_tags_other roll_call_minimal get_default_def)

lemma parse_single_file_without_description:
  "parse_single_file (Inr vote_document_without_description) =
     Inl (Exn AttributeError (ustr ''NoneType object has no attribute text''))"
  by (simp add: vote_document_without_description_def parse_single_file_def findall_deep_def
      roll_call_records_def find_child_def findall_def vote_tags_other vote_tags_distinct)

theorem parse_minimal_speech_document_witness:
  "speech_file unicode_14_zeros (Inr minimal_speech_document) = ([minimal_speech_record], None) \<and>
   parse_speeches unicode_14_zeros
     [(ustr ''CRE-9-2024-01-15'' @ ustr ''.xml'', Inr minimal_speech_document)] =
     Inr \<lparr>b_rows = [minimal_speech_record], b_printed = [Combined_CSV_saved],
          b_csv = Some [minimal_speech_record]\<rparr>"
  using parse_minimal_speech_document
    [where zeros = unicode_14_zeros and rt = "ustr ''DEBATS''" and ra = "[]" and rx = None
       and rl = None and ca = "[]" and cx = None and cl = None and nx = None and nl = None
       and ia = "[]" and ix = None and il = None and ox = None and ol = None and pa = "[]"
       and pl = None and name = "ustr ''CRE-9-2024-01-15''"]
  by (simp add: minimal_speech_document_def minimal_speech_record_def)

lemma parse_single_file_Inl: "parse_single_file (Inl e) = Inl e"
  by (simp add: parse_single_file_def)

lemma xml_names:
  "endswith (ustr ''a.xml'') (ustr ''.xml'')" "endswith (ustr ''b.xml'') (ustr ''.xml'')"
  by (simp_all add: endswith_def ustr_def)

text \<open>
  Claim C9 fails on the code. A roll-call result without its description element makes
  \<open>parse_single_file\<close> raise \<open>AttributeError\<close>, which \<open>parse_votings\<close> does not catch
  (it catches \<open>ParseError\<close> and \<open>OSError\<close>): the batch is aborted, the file after it is
  not parsed and nothing is printed. And a file that cannot be read (\<open>PermissionError\<close>)
  aborts \<open>parse_speeches\<close>, which catches \<open>FileNotFoundError\<close>, \<open>ParseError\<close> and
  \<open>AttributeError\<close>, while \<open>parse_votings\<close> prints the error with the file name and goes
  on to the next file.
\<close>

theorem parse_batch_aborted:
  "parse_votings
     [(ustr ''a.xml'', Inr vote_document_without_description),
      (ustr ''b.xml'', Inr minimal_vote_document)] =
     Inl (Exn AttributeError (ustr ''NoneType object has no attribute text'')) \<and>
   parse_speeches unicode_14_zeros
     [(ustr ''a.xml'', Inl (Exn PermissionError (ustr ''Permission denied''))),
      (ustr ''b.xml'', Inr minimal_speech_document)] =
     Inl (Exn PermissionError (ustr ''Permission denied'')) \<and>
   parse_votings
     [(ustr ''a.xml'', Inl (Exn PermissionError (ustr ''Permission denied''))),
      (ustr ''b.xml'', Inr minimal_vote_document)] =
     Inr \<lparr>b_rows = [minimal_vote_record],
          b_printed =
            [File_error_with (ustr ''a.xml'') (Exn PermissionError (ustr ''Permission denied'')),
             Voting_data_saved],
          b_csv = Some [minimal_vote_record]\<rparr>"
proof -
  have a: "parse_votings
     [(ustr ''a.xml'', Inr vote_document_without_description),
      (ustr ''b.xml'', Inr minimal_vote_document)] =
     Inl (Exn AttributeError (ustr ''NoneType object has no attribute text''))"
    by (simp add: parse_votings_def xml_files_def xml_names
        parse_single_file_without_description is_OSError_def)
  have b: "parse_speeches unicode_14_zeros
     [(ustr ''a.xml'', Inl (Exn PermissionError (ustr ''Permission denied''))),
      (ustr ''b.xml'', Inr minimal_speech_document)] =
     Inl (Exn PermissionError (ustr ''Permission denied''))"
    by (simp add: parse_speeches_def xml_files_def xml_names speech_file_def speech_caught_def)
  have c: "parse_votings
     [(ustr ''a.xml'', Inl (Exn PermissionError (ustr ''Permission denied''))),
      (ustr ''b.xml'', Inr minimal_vote_document)] =
     Inr \<lparr>b_rows = [minimal_vote_record],
          b_printed =
            [File_error_with (ustr ''a.xml'') (Exn PermissionError (ustr ''Permission denied'')),
             Voting_data_saved],
          b_csv = Some [minimal_vote_record]\<rparr>"
    by (simp add: parse_votings_def xml_files_def xml_names parse_single_file_minimal
        parse_single_file_Inl is_OSError_def)
  from a b c show ?thesis by (intro conjI)
qed

section \<open>Resumable fetcher\<close>

lemmas date_eval = date_str_def year_of_def month_of_def day_of_def month_index_def
  day_of_year_def year_of_era_def day_of_era_def four_digits_def two_digits_def

lemma date_str_values:
  "date_str 19737 = ustr ''2024-01-15''" "date_str 19738 = ustr ''2024-01-16''"
  "date_str 19739 = ustr ''2024-01-17''" "date_str 0 = ustr ''1970-01-01''"
  "date_str 19782 = ustr ''2024-02-29''" "date_str 19723 = ustr ''2024-01-01''"
  "date_str 19722 = ustr ''2023-12-31''"
  by (simp_all add: date_eval ustr_def)

lemma length_date_str: "length (date_str d) = 10"
  by (simp add: date_str_def four_digits_def two_digits_def)

lemma str_int_values: "str_int 9 = ustr ''9''" "str_int 10 = ustr ''10''" "str_int 500 = ustr ''500''"
  by (simp_all add: str_int_def ustr_def)

lemma build_url_value:
  "build_url 9 19737 = ustr ''https://www.europarl.europa.eu/doceo/document/CRE-9-2024-01-15_EN.xml''"
  by (simp add: build_url_def str_int_values date_str_values) (simp add: ustr_def)

lemma writerow_effect:
  "log_rows (writerow r w) = log_rows w @ [r]" "w_requests (writerow r w) = w_requests w"
  "w_files (writerow r w) = w_files w"
  by (simp_all add: writerow_def log_rows_def split: option.splits)

lemma log_rows_update:
  "log_rows (w\<lparr>w_requests := rs\<rparr>) = log_rows w"
  "log_rows (w\<lparr>w_requests := rs, w_files := fs\<rparr>) = log_rows w"
  by (simp_all add: log_rows_def)

lemma fetch_requests:
  assumes "fetch net disk url file_name date date_s w = (w', x)"
  shows "w_requests w' = w_requests w @ [(date, url)]"
  using assms
  by (auto simp add: fetch_def writerow_effect split: sum.splits option.splits if_splits)

lemma fetch_rows:
  assumes "fetch net disk url file_name date date_s w = (w', x)"
  shows "log_rows w' = log_rows w \<or> (\<exists>st det. log_rows w' = log_rows w @ [[date_s, st, det]])"
  using assms
  by (auto simp add: fetch_def writerow_effect log_rows_update
      split: sum.splits option.splits if_splits)

lemma fetch_effect:
  assumes "fetch net disk url file_name date date_s w = (w', x)"
  shows "w_requests w' = w_requests w @ [(date, url)] \<and>
         (\<exists>rows. log_rows w' = log_rows w @ rows \<and> (\<forall>r \<in> set rows. take 1 r = [date_s]))"
proof -
  from fetch_rows [OF assms]
  have "\<exists>rows. log_rows w' = log_rows w @ rows \<and> (\<forall>r \<in> set rows. take 1 r = [date_s])"
  proof
    assume "log_rows w' = log_rows w"
    then show ?thesis by (intro exI [of _ "[]"]) simp
  next
    assume "\<exists>st det. log_rows w' = log_rows w @ [[date_s, st, det]]"
    then obtain st det where "log_rows w' = log_rows w @ [[date_s, st, det]]" by blast
    then show ?thesis by (intro exI [of _ "[[date_s, st, det]]"]) simp
  qed
  with fetch_requests [OF assms] show ?thesis by simp
qed

lemma handle_download_effect:
  assumes "handle_download net disk date date_s w = (w', x)"
  shows "(\<exists>rs. w_requests w' = w_requests w @ rs \<and> fst ` set rs \<subseteq> {date}) \<and>
         (\<exists>rows. log_rows w' = log_rows w @ rows \<and> (\<forall>r \<in> set rows. take 1 r = [date_s]))"
proof (cases "get_term date")
  case None
  with assms have "w' = writerow [date_s, ustr ''Failed'', ustr ''Term not found''] w"
    by (simp add: handle_download_def)
  then show ?thesis by (simp add: writerow_effect)
next
  case (Some t)
  show ?thesis
  proof (cases "t = 0")
    case True
    with Some assms have "w' = writerow [date_s, ustr ''Failed'', ustr ''Term not found''] w"
      by (simp add: handle_download_def)
    then show ?thesis by (simp add: writerow_effect)
  next
    case False
    obtain w1 x1 where f: "fetch net disk (build_url t date)
        (ustr ''CRE-'' @ str_int t @ [45] @ date_s @ ustr ''.xml'') date date_s w = (w1, x1)"
      by (cases "fetch net disk (build_url t date)
        (ustr ''CRE-'' @ str_int t @ [45] @ date_s @ ustr ''.xml'') date date_s w")
    note e = fetch_effect [OF f]
    from e obtain rows1 where r1: "log_rows w1 = log_rows w @ rows1"
      "\<forall>r \<in> set rows1. take 1 r = [date_s]" by blast
    from assms Some False f have "w' = w1 \<or> (\<exists>st det. w' = writerow [date_s, st, det] w1)"
      by (auto simp add: handle_download_def split: option.splits if_splits)
    then show ?thesis
    proof
      assume "w' = w1"
      with e show ?thesis by simp
    next
      assume "\<exists>st det. w' = writerow [date_s, st, det] w1"
      then obtain st det where w': "w' = writerow [date_s, st, det] w1" by blast
      have "w_requests w' = w_requests w @ [(date, build_url t date)]"
        using w' e by (simp add: writerow_effect)
      moreover have "log_rows w' = log_rows w @ (rows1 @ [[date_s, st, det]])"
        using w' r1(1) by (simp add: writerow_effect)
      moreover have "\<forall>r \<in> set (rows1 @ [[date_s, st, det]]). take 1 r = [date_s]"
        using r1(2) by simp
      ultimately show ?thesis by (intro conjI exI [of _ "[(date, build_url t date)]"]
          exI [of _ "rows1 @ [[date_s, st, det]]"]) simp_all
    qed
  qed
qed

lemma speech_dates_effect:
  assumes "speech_dates net disk log_df dates w = (w', x)"
  shows "(\<exists>rs. w_requests w' = w_requests w @ rs \<and>
            fst ` set rs \<subseteq> {d \<in> set dates. \<not> terminal log_df (date_str d)}) \<and>
         (\<exists>rows. log_rows w' = log_rows w @ rows \<and>
            (\<forall>r \<in> set rows. \<exists>d \<in> set dates. \<not> terminal log_df (date_str d) \<and>
               take 1 r = [date_str d]))"
  using assms
proof (induction dates arbitrary: w)
  case Nil
  then show ?case by simp
next
  case (Cons date dates)
  show ?case
  proof (cases "terminal log_df (date_str date)")
    case True
    with Cons.prems have "speech_dates net disk log_df dates w = (w', x)"
      by (simp add: terminal_def)
    from Cons.IH [OF this] show ?thesis by (simp add: subset_iff) blast
  next
    case False
    obtain w1 x1 where s: "handle_download net disk date (date_str date) w = (w1, x1)"
      by (cases "handle_download net disk date (date_str date) w")
    from handle_download_effect [OF s] obtain rs1 rows1 where e1:
      "w_requests w1 = w_requests w @ rs1" "fst ` set rs1 \<subseteq> {date}"
      "log_rows w1 = log_rows w @ rows1" "\<forall>r \<in> set rows1. take 1 r = [date_str date]"
      by blast
    show ?thesis
    proof (cases x1)
      case (Some e)
      with Cons.prems False s have "w' = w1" by (simp add: terminal_def)
      with e1 False show ?thesis
        by (intro conjI exI [of _ rs1] exI [of _ rows1]) auto
    next
      case None
      with Cons.prems False s have "speech_dates net disk log_df dates w1 = (w', x)"
        by (simp add: terminal_def)
      from Cons.IH [OF this] obtain rs2 rows2 where e2:
        "w_requests w' = w_requests w1 @ rs2"
        "fst ` set rs2 \<subseteq> {d \<in> set dates. \<not> terminal log_df (date_str d)}"
        "log_rows w' = log_rows w1 @ rows2"
        "\<forall>r \<in> set rows2. \<exists>d \<in> set dates. \<not> terminal log_df (date_str d) \<and>
               take 1 r = [date_str d]"
        by blast
      have a: "w_requests w' = w_requests w @ (rs1 @ rs2)" using e1(1) e2(1) by simp
      have b: "fst ` set (rs1 @ rs2) \<subseteq>
          {d \<in> set (date # dates). \<not> terminal log_df (date_str d)}"
        using e1(2) e2(2) False by auto
      have c: "log_rows w' = log_rows w @ (rows1 @ rows2)" using e1(3) e2(3) by simp
      have d: "\<forall>r \<in> set (rows1 @ rows2). \<exists>d \<in> set (date # dates).
          \<not> terminal log_df (date_str d) \<and> take 1 r = [date_str d]"
        using e1(4) e2(4) False by auto
      from a b c d show ?thesis
        by (intro conjI exI [of _ "rs1 @ rs2"] exI [of _ "rows1 @ rows2"])
    qed
  qed
qed

lemma voting_download_effect:
  assumes "voting_download net disk date date_s w = (w', x)"
  shows "(\<exists>rs. w_requests w' = w_requests w @ rs \<and> fst ` set rs \<subseteq> {date}) \<and>
         (\<exists>rows. log_rows w' = log_rows w @ rows \<and> (\<forall>r \<in> set rows. take 1 r = [date_s]))"
proof (cases "voting_get_term date")
  case None
  with assms have "w' = writerow [date_s, ustr ''Failed'', ustr ''Term not found''] w"
    by (simp add: voting_download_def)
  then show ?thesis by (simp add: writerow_effect)
next
  case (Some t)
  show ?thesis
  proof (cases "t = 0")
    case True
    with Some assms have "w' = writerow [date_s, ustr ''Failed'', ustr ''Term not found''] w"
      by (simp add: voting_download_def)
    then show ?thesis by (simp add: writerow_effect)
  next
    case False
    obtain w1 x1 where f: "fetch net disk (build_url_vote t date)
        (ustr ''PV-'' @ str_int t @ [45] @ date_s @ ustr ''.xml'') date date_s w = (w1, x1)"
      by (cases "fetch net disk (build_url_vote t date)
        (ustr ''PV-'' @ str_int t @ [45] @ date_s @ ustr ''.xml'') date date_s w")
    note e = fetch_effect [OF f]
    from e obtain rows1 where r1: "log_rows w1 = log_rows w @ rows1"
      "\<forall>r \<in> set rows1. take 1 r = [date_s]" by blast
    from assms Some False f have "w' = w1 \<or> (\<exists>st det. w' = writerow [date_s, st, det] w1)"
      by (auto simp add: voting_download_def split: option.splits if_splits)
    then show ?thesis
    proof
      assume "w' = w1"
      with e show ?thesis by simp
    next
      assume "\<exists>st det. w' = writerow [date_s, st, det] w1"
      then obtain st det where w': "w' = writerow [date_s, st, det] w1" by blast
      have "w_requests w' = w_requests w @ [(date, build_url_vote t date)]"
        using w' e by (simp add: writerow_effect)
      moreover have "log_rows w' = log_rows w @ (rows1 @ [[date_s, st, det]])"
        using w' r1(1) by (simp add: writerow_effect)
      moreover have "\<forall>r \<in> set (rows1 @ [[date_s, st, det]]). take 1 r = [date_s]"
        using r1(2) by simp
      ultimately show ?thesis by (intro conjI exI [of _ "[(date, build_url_vote t date)]"]
          exI [of _ "rows1 @ [[date_s, st, det]]"]) simp_all
    qed
  qed
qed

lemma voting_dates_effect:
  assumes "voting_dates net disk log_df dates w = (w', x)"
  shows "(\<exists>rs. w_requests w' = w_requests w @ rs \<and>
            fst ` set rs \<subseteq> {d \<in> set dates. \<not> terminal log_df (date_str d)}) \<and>
         (\<exists>rows. log_rows w' = log_rows w @ rows \<and>
            (\<forall>r \<in> set rows. \<exists>d \<in> set dates. \<not> terminal log_df (date_str d) \<and>
               take 1 r = [date_str d]))"
  using assms
proof (induction dates arbitrary: w)
  case Nil
  then show ?case by simp
next
  case (Cons date dates)
  show ?case
  proof (cases "terminal log_df (date_str date)")
    case True
    with Cons.prems have "voting_dates net disk log_df dates w = (w', x)"
      by (simp add: terminal_def)
    from Cons.IH [OF this] show ?thesis by (simp add: subset_iff) blast
  next
    case False
    obtain w1 x1 where s: "voting_download net disk date (date_str date) w = (w1, x1)"
      by (cases "voting_download net disk date (date_str date) w")
    from voting_download_effect [OF s] obtain rs1 rows1 where e1:
      "w_requests w1 = w_requests w @ rs1" "fst ` set rs1 \<subseteq> {date}"
      "log_rows w1 = log_rows w @ rows1" "\<forall>r \<in> set rows1. take 1 r = [date_str date]"
      by blast
    show ?thesis
    proof (cases x1)
      case (Some e)
      with Cons.prems False s have "w' = w1" by (simp add: terminal_def)
      with e1 False show ?thesis
        by (intro conjI exI [of _ rs1] exI [of _ rows1]) auto
    next
      case None
      with Cons.prems False s have "voting_dates net disk log_df dates w1 = (w', x)"
        by (simp add: terminal_def)
      from Cons.IH [OF this] obtain rs2 rows2 where e2:
        "w_requests w' = w_requests w1 @ rs2"
        "fst ` set rs2 \<subseteq> {d \<in> set dates. \<not> terminal log_df (date_str d)}"
        "log_rows w' = log_rows w1 @ rows2"
        "\<forall>r \<in> set rows2. \<exists>d \<in> set dates. \<not> terminal log_df (date_str d) \<and>
               take 1 r = [date_str d]"
        by blast
      have a: "w_requests w' = w_requests w @ (rs1 @ rs2)" using e1(1) e2(1) by simp
      have b: "fst ` set (rs1 @ rs2) \<subseteq>
          {d \<in> set (date # dates). \<not> terminal log_df (date_str d)}"
        using e1(2) e2(2) False by auto
      have c: "log_rows w' = log_rows w @ (rows1 @ rows2)" using e1(3) e2(3) by simp
      have d: "\<forall>r \<in> set (rows1 @ rows2). \<exists>d \<in> set (date # dates).
          \<not> terminal log_df (date_str d) \<and> take 1 r = [date_str d]"
        using e1(4) e2(4) False by auto
      from a b c d show ?thesis
        by (intro conjI exI [of _ "rs1 @ rs2"] exI [of _ "rows1 @ rows2"])
    qed
  qed
qed






lemma initialize_log_world:
  assumes "initialize_log read_csv w = Inr (log_df, w0)"
  shows "w_requests w0 = w_requests w" "w_files w0 = w_files w" "w_log w0 = w_log w"
  using assms
  by (auto simp add: initialize_log_def split: option.splits sum.splits if_splits)

lemma open_log_effect:
  "w_requests (open_log w) = w_requests w" "w_files (open_log w) = w_files w"
  "log_rows (open_log w) = log_rows w @ (if log_rows w = [] then [log_header] else [])"
  by (simp_all add: open_log_def log_rows_def split: option.splits)

lemma header_not_date: "take 1 log_header \<noteq> [date_str d]"
proof
  assume "take 1 log_header = [date_str d]"
  then have "length (ustr ''Date'') = length (date_str d)" by (simp add: log_header_def)
  then show False by (simp add: length_date_str ustr_def)
qed

lemma run_skips_terminal:
  assumes i: "initialize_log read_csv w = Inr (log_df, w0)"
    and t: "terminal log_df (date_str d)"
    and l: "loop net disk log_df dates (open_log w0) = (w', x)"
    and e: "\<And>w w' x. loop net disk log_df dates w = (w', x) \<Longrightarrow>
        (\<exists>rs. w_requests w' = w_requests w @ rs \<and>
            fst ` set rs \<subseteq> {d \<in> set dates. \<not> terminal log_df (date_str d)}) \<and>
        (\<exists>rows. log_rows w' = log_rows w @ rows \<and>
            (\<forall>r \<in> set rows. \<exists>d \<in> set dates. \<not> terminal log_df (date_str d) \<and>
               take 1 r = [date_str d]))"
  shows "d \<notin> fst ` set (requests_issued w w') \<and>
         (\<forall>row \<in> set (rows_appended w w'). take 1 row \<noteq> [date_str d])"
proof -
  from e [OF l] obtain rs rows where r:
    "w_requests w' = w_requests (open_log w0) @ rs"
    "fst ` set rs \<subseteq> {d \<in> set dates. \<not> terminal log_df (date_str d)}"
    "log_rows w' = log_rows (open_log w0) @ rows"
    "\<forall>r \<in> set rows. \<exists>d \<in> set dates. \<not> terminal log_df (date_str d) \<and> take 1 r = [date_str d]"
    by blast
  note w0 = initialize_log_world [OF i]
  have lr: "log_rows w0 = log_rows w" using w0(3) by (simp add: log_rows_def)
  have "requests_issued w w' = rs"
    using r(1) w0(1) by (simp add: requests_issued_def open_log_effect)
  moreover have "d \<notin> fst ` set rs" using r(2) t by auto
  moreover have "rows_appended w w' = (if log_rows w = [] then [log_header] else []) @ rows"
    using r(3) lr by (simp add: rows_appended_def open_log_effect)
  moreover have "\<forall>row \<in> set rows. take 1 row \<noteq> [date_str d]"
  proof
    fix row assume "row \<in> set rows"
    with r(4) obtain d' where d': "\<not> terminal log_df (date_str d')" "take 1 row = [date_str d']"
      by blast
    with t have "date_str d' \<noteq> date_str d" by auto
    with d'(2) show "take 1 row \<noteq> [date_str d]" by simp
  qed
  ultimately show ?thesis using header_not_date [of d] by auto
qed

text \<open>
  Claim C1. Let the prior log, as \<open>initialize_log\<close> loads it, hold a row with status
  \<open>Success\<close> or \<open>Not Found\<close> for a date. Then a run of \<open>download_speeches\<close> or of
  \<open>download_votings\<close>, over any range, whatever the network and the disk do, makes no
  call of \<open>requests.get\<close> for that date and appends no row for that date to the log. This
  holds of every run, so also of a second run over the same range on the log the first
  run has left.
\<close>

theorem idempotent_resume:
  assumes "initialize_log read_csv w = Inr (log_df, w0)"
    and "terminal log_df (date_str d)"
  shows "d \<notin> fst ` set (requests_issued w
            (fst (download_speeches read_csv net disk start_date end_date w))) \<and>
         (\<forall>row \<in> set (rows_appended w
            (fst (download_speeches read_csv net disk start_date end_date w))).
              take 1 row \<noteq> [date_str d]) \<and>
         d \<notin> fst ` set (requests_issued w
            (fst (download_votings read_csv net disk start_date end_date w))) \<and>
         (\<forall>row \<in> set (rows_appended w
            (fst (download_votings read_csv net disk start_date end_date w))).
              take 1 row \<noteq> [date_str d])"
proof -
  obtain ws xs where s: "speech_dates net disk log_df [start_date..end_date] (open_log w0) = (ws, xs)"
    by (cases "speech_dates net disk log_df [start_date..end_date] (open_log w0)")
  obtain wv xv where v: "voting_dates net disk log_df [start_date..end_date] (open_log w0) = (wv, xv)"
    by (cases "voting_dates net disk log_df [start_date..end_date] (open_log w0)")
  have a: "d \<notin> fst ` set (requests_issued w ws) \<and>
         (\<forall>row \<in> set (rows_appended w ws). take 1 row \<noteq> [date_str d])"
    using assms s by (rule run_skips_terminal) (rule speech_dates_effect)
  have b: "d \<notin> fst ` set (requests_issued w wv) \<and>
         (\<forall>row \<in> set (rows_appended w wv). take 1 row \<noteq> [date_str d])"
    using assms v by (rule run_skips_terminal) (rule voting_dates_effect)
  have "fst (download_speeches read_csv net disk start_date end_date w) = ws"
    using assms(1) s by (simp add: download_speeches_def)
  moreover have "fst (download_votings read_csv net disk start_date end_date w) = wv"
    using assms(1) v by (simp add: download_votings_def)
  ultimately show ?thesis using a b by simp
qed

lemma get_term_values:
  "get_term 19737 = Some 9" "get_term 19738 = Some 9" "get_term 19739 = Some 9"
  "voting_get_term 19737 = Some 9" "voting_get_term 19738 = Some 9"
  "voting_get_term 19739 = Some 9"
  by (simp_all add: get_term_def voting_get_term_def date_ranges_def voting_date_ranges_def
      to_datetime_def)

lemma url_distinct:
  "build_url 9 19738 \<noteq> build_url 9 19737" "build_url 9 19739 \<noteq> build_url 9 19737"
  "build_url 9 19739 \<noteq> build_url 9 19738"
  by (simp_all add: build_url_def date_str_values) (simp_all add: ustr_def)

lemma resumed_log:
  "initialize_log read_written_log resumed_world =
     Inr (\<lparr>df_columns = log_header,
           df_rows =
             [zip log_header [ustr ''2024-01-15'', ustr ''Success'', ustr ''Downloaded''],
              zip log_header [ustr ''2024-01-16'', ustr ''Not Found'', ustr ''URL not found''],
              zip log_header [ustr ''2024-01-17'', ustr ''Failed'', ustr ''HTTP 500'']]\<rparr>,
          resumed_world)"
  by (simp add: initialize_log_def resumed_world_def read_written_log_def)
     (simp add: log_header_def ustr_def)

lemma resumed_terminal:
  "terminal \<lparr>df_columns = log_header,
           df_rows =
             [zip log_header [ustr ''2024-01-15'', ustr ''Success'', ustr ''Downloaded''],
              zip log_header [ustr ''2024-01-16'', ustr ''Not Found'', ustr ''URL not found''],
              zip log_header [ustr ''2024-01-17'', ustr ''Failed'', ustr ''HTTP 500'']]\<rparr>
     (date_str 19737)"
  by (simp add: terminal_def has_row_def date_str_values log_header_def) (simp add: ustr_def)

lemma first_run:
  "download_speeches read_written_log example_net (\<lambda>name. None) 19737 19739 fresh_world =
     (resumed_world, None)"
proof -
  have r: "[19737..19739] = [19737, 19738, 19739 :: int]" by (simp add: upto.simps)
  have i: "initialize_log read_written_log fresh_world = Inr (empty_log, fresh_world)"
    by (simp add: initialize_log_def fresh_world_def)
  have n: "\<not> has_row empty_log st ds" for st ds by (simp add: has_row_def empty_log_def)
  show ?thesis
    unfolding download_speeches_def i r
    by (simp add: n handle_download_def fetch_def get_term_values example_net_def url_distinct
        open_log_def writerow_def fresh_world_def resumed_world_def date_str_values
        str_int_values)
       (simp add: ustr_def)
qed

theorem idempotent_resume_witness:
  "19737 \<notin> fst ` set (requests_issued resumed_world
      (fst (download_speeches read_written_log example_net (\<lambda>name. None) 19737 19739
         resumed_world))) \<and>
   list_all (\<lambda>row. take 1 row \<noteq> [date_str 19737]) (rows_appended resumed_world
      (fst (download_speeches read_written_log example_net (\<lambda>name. None) 19737 19739
         resumed_world))) \<and>
   19737 \<notin> fst ` set (requests_issued resumed_world
      (fst (download_votings read_written_log example_net (\<lambda>name. None) 19737 19739
         resumed_world))) \<and>
   list_all (\<lambda>row. take 1 row \<noteq> [date_str 19737]) (rows_appended resumed_world
      (fst (download_votings read_written_log example_net (\<lambda>name. None) 19737 19739
         resumed_world))) \<and>
   download_speeches read_written_log example_net (\<lambda>name. None) 19737 19739 fresh_world =
     (resumed_world, None)"
  using idempotent_resume [OF resumed_log resumed_terminal, of example_net "\<lambda>name. None"
      19737 19739] first_run
  by (simp add: list_all_iff)





end
